theory Spec2Isabelle
  imports Main "HOL-Library.Sublist" "HOL-Library.AList"
begin

section \<open>Python string operations used by the sources\<close>

text \<open>
  Strings are character lists. The sources only build and take apart ASCII names
  (snap names, Juju unit names, configuration keys); code points beyond ASCII are
  treated as non-word characters by \<open>is_word_char\<close> below.

  \<open>str_split s sep\<close> is Python's \<^verbatim>\<open>s.split(sep)\<close> for a non-empty separator:
  the string is scanned from the left, every occurrence of the separator that does
  not overlap an earlier one ends a piece, and the pieces are returned in order
  (there is always at least one piece). Both separators used in the sources are
  non-empty constants; for the empty separator Python raises, and \<open>split_from\<close>
  never cuts.
\<close>

fun split_from :: "string \<Rightarrow> string \<Rightarrow> string \<Rightarrow> string list" where
  "split_from sep cur [] = [cur]"
| "split_from sep cur (c # cs) =
     (if sep \<noteq> [] \<and> prefix sep (c # cs)
      then cur # split_from sep [] (drop (length sep) (c # cs))
      else split_from sep (cur @ [c]) cs)"

definition str_split :: "string \<Rightarrow> string \<Rightarrow> string list" where
  "str_split s sep = split_from sep [] s"

text \<open>\<^verbatim>\<open>sep.join(xs)\<close>.\<close>

fun join :: "string \<Rightarrow> string list \<Rightarrow> string" where
  "join sep [] = []"
| "join sep [x] = x"
| "join sep (x # y # ys) = x @ sep @ join sep (y # ys)"

text \<open>
  The character class \<^verbatim>\<open>\w\<close> on ASCII text: letters, digits and the underscore.
\<close>

definition is_word_char :: "char \<Rightarrow> bool" where
  "is_word_char c \<longleftrightarrow>
     (let n = (of_char c :: nat)
      in (48 \<le> n \<and> n \<le> 57) \<or> (65 \<le> n \<and> n \<le> 90) \<or> (97 \<le> n \<and> n \<le> 122) \<or> n = 95)"

section \<open>snap\_singleton.py: the file-based registration of units\<close>

datatype error =
    UnpackValueError
  | FileNotFoundError
  | ConflictValueError string
  | CharmConfigError string
  | CharmInstallError string
  | CharmStatusError string
  | CharmUninstallError string
  | SecretAccessError string
  | UncaughtError string

text \<open>
  \<open>UnpackValueError\<close> is the \<^verbatim>\<open>ValueError\<close> Python raises when a two-name tuple
  assignment receives a list that does not have exactly two elements;
  \<open>ConflictValueError\<close> is the \<^verbatim>\<open>ValueError\<close> of \<^verbatim>\<open>merge_dicts\<close>, with its message;
  \<open>UncaughtError\<close> stands for an exception of a collaborator that the sources do
  not catch (a \<^verbatim>\<open>SnapError\<close> where no \<^verbatim>\<open>try\<close> surrounds the call, an \<^verbatim>\<open>OSError\<close> of the
  file system).
\<close>

record SnapRegistrationFile =
  unit_name :: string
  snap_name :: string

definition PREFIX :: string where
  "PREFIX = ''LCK..''"

definition SEPARATOR_UNIT :: string where
  "SEPARATOR_UNIT = ''__''"

text \<open>\<^verbatim>\<open>re.sub(r"[^\w-]", "_", name)\<close>: every character that is neither a word
  character nor a hyphen becomes an underscore.\<close>

definition normalize_name :: "string \<Rightarrow> string" where
  "normalize_name name =
     map (\<lambda>c. if is_word_char c \<or> c = CHR ''-'' then c else CHR ''_'') name"

definition filename :: "SnapRegistrationFile \<Rightarrow> string" where
  "filename r = PREFIX @ snap_name r @ SEPARATOR_UNIT @ normalize_name (unit_name r)"

text \<open>
  \<^verbatim>\<open>from_filename\<close> unpacks each split into exactly two names; any other number of
  pieces raises. The piece before the prefix is bound to \<^verbatim>\<open>_\<close> and dropped.
\<close>

definition from_filename :: "string \<Rightarrow> error + SnapRegistrationFile" where
  "from_filename fn =
     (case str_split fn PREFIX of
        [_, rest] \<Rightarrow>
          (case str_split rest SEPARATOR_UNIT of
             [sn, un] \<Rightarrow> Inr \<lparr>unit_name = un, snap_name = sn\<rparr>
           | _ \<Rightarrow> Inl UnpackValueError)
      | _ \<Rightarrow> Inl UnpackValueError)"

text \<open>
  The lock directory is the list of the file names it holds, as \<^verbatim>\<open>os.listdir\<close>
  returns them. The directory itself is taken to exist and to be writable, and a
  name is one directory entry; \<^verbatim>\<open>open(..., "w")\<close> on an existing name truncates the
  file and leaves the listing as it is, \<^verbatim>\<open>os.remove\<close> of a missing name raises
  \<^verbatim>\<open>FileNotFoundError\<close>. The first argument of the three methods is the manager's
  \<^verbatim>\<open>self.unit_name\<close>, stored by the constructor exactly as it was passed in.
\<close>

type_synonym lock_dir = "string list"

definition register :: "string \<Rightarrow> string \<Rightarrow> lock_dir \<Rightarrow> lock_dir" where
  "register self sn d =
     (let fn = filename \<lparr>unit_name = self, snap_name = sn\<rparr>
      in if fn \<in> set d then d else d @ [fn])"

definition unregister :: "string \<Rightarrow> string \<Rightarrow> lock_dir \<Rightarrow> (error + unit) \<times> lock_dir" where
  "unregister self sn d =
     (let fn = filename \<lparr>unit_name = self, snap_name = sn\<rparr>
      in if fn \<in> set d then (Inr (), removeAll fn d) else (Inl FileNotFoundError, d))"

fun get_units_loop :: "string \<Rightarrow> string list \<Rightarrow> string set \<Rightarrow> error + string set" where
  "get_units_loop sn [] units = Inr units"
| "get_units_loop sn (f # fs) units =
     (case from_filename f of
        Inl e \<Rightarrow> Inl e
      | Inr registration_file \<Rightarrow>
          get_units_loop sn fs
            (if snap_name registration_file = sn
             then insert (unit_name registration_file) units else units))"

definition get_units :: "string \<Rightarrow> lock_dir \<Rightarrow> error + string set" where
  "get_units sn d = get_units_loop sn d {}"

definition is_used_by_other_units :: "string \<Rightarrow> string \<Rightarrow> lock_dir \<Rightarrow> error + bool" where
  "is_used_by_other_units self sn d =
     (case get_units sn d of
        Inl e \<Rightarrow> Inl e
      | Inr units \<Rightarrow> Inr (\<exists>unit \<in> units. unit \<noteq> self))"

text \<open>
  Specification-side notions used to state the properties of the registry.
  \<open>holders sn d\<close> are the unit names of the entries of \<open>d\<close> that parse to the snap
  \<open>sn\<close>. A directory is canonical when every entry parses and is the file name of
  the registration it parses to, as every entry written by \<open>register\<close> for a
  well-formed snap name is.
\<close>

definition holders :: "string \<Rightarrow> lock_dir \<Rightarrow> string set" where
  "holders sn d = {unit_name r | r. \<exists>f \<in> set d. from_filename f = Inr r \<and> snap_name r = sn}"

definition canonical_dir :: "lock_dir \<Rightarrow> bool" where
  "canonical_dir d \<longleftrightarrow>
     (\<forall>f \<in> set d. case from_filename f of Inl e \<Rightarrow> False | Inr r \<Rightarrow> filename r = f)"

text \<open>
  The shape of a file name in the words of the naming convention: the prefix, a
  snap name, exactly one separator, a unit name.
\<close>

definition claimed_shape :: "string \<Rightarrow> bool" where
  "claimed_shape f \<longleftrightarrow>
     (\<exists>sn un. f = PREFIX @ sn @ SEPARATOR_UNIT @ un \<and>
        \<not> sublist SEPARATOR_UNIT sn \<and> \<not> sublist SEPARATOR_UNIT un)"

text \<open>
  The shape outside which \<open>from_filename\<close> raises: the same, after any text that
  does not contain the prefix.
\<close>

definition accepted_shape :: "string \<Rightarrow> bool" where
  "accepted_shape f \<longleftrightarrow>
     (\<exists>junk sn un. f = junk @ PREFIX @ sn @ SEPARATOR_UNIT @ un \<and>
        \<not> sublist PREFIX junk \<and> \<not> sublist PREFIX (sn @ SEPARATOR_UNIT @ un) \<and>
        \<not> sublist SEPARATOR_UNIT sn \<and> \<not> sublist SEPARATOR_UNIT un)"

section \<open>utils.py: flattening and merging nested configuration\<close>

text \<open>
  A Python value is either a dictionary or anything else; what else it is (number,
  string, list, \<^verbatim>\<open>None\<close>) plays no part in the two functions, so a leaf carries a
  value of any type. A dictionary is the list of its items in insertion order;
  \<^verbatim>\<open>result[key] = value\<close> is \<open>AList.update\<close> (the value is replaced in place, a new
  key goes to the end), \<^verbatim>\<open>key in result\<close> and \<^verbatim>\<open>result[key]\<close> are \<open>map_of\<close>. The keys of
  the configuration are strings.
\<close>

datatype 'a pyval = Leaf 'a | Dict "(string \<times> 'a pyval) list"

type_synonym 'a pydict = "(string \<times> 'a pyval) list"

text \<open>\<^verbatim>\<open>dict(items)\<close>: a later item with the same key replaces the value of the earlier one.\<close>

definition dict_of :: "(string \<times> 'v) list \<Rightarrow> (string \<times> 'v) list" where
  "dict_of items = foldl (\<lambda>d (k, v). AList.update k v d) [] items"

text \<open>
  \<open>flatten_items data parent_key\<close> is the list \<^verbatim>\<open>items\<close> at the end of the loop of
  \<^verbatim>\<open>flatten_dict\<close>; the recursive call returns a dictionary, whose items are appended.
\<close>

function flatten_items :: "'a pydict \<Rightarrow> string \<Rightarrow> (string \<times> 'a) list" where
  "flatten_items [] parent_key = []"
| "flatten_items ((k, v) # rest) parent_key =
     (let new_key = (if parent_key \<noteq> [] then parent_key @ ''.'' @ k else k)
      in (case v of
            Dict d \<Rightarrow> dict_of (flatten_items d new_key)
          | Leaf x \<Rightarrow> [(new_key, x)])
         @ flatten_items rest parent_key)"
  by pat_completeness auto
termination
  by (relation "measure (\<lambda>(d, pk). size (Dict d))") auto

definition flatten_dict :: "'a pydict \<Rightarrow> string \<Rightarrow> (string \<times> 'a) list" where
  "flatten_dict data parent_key = dict_of (flatten_items data parent_key)"

text \<open>
  \<open>merge_dicts result data_2 path\<close> runs the loop of \<^verbatim>\<open>merge_dicts\<close> over the items of
  \<open>data_2\<close>, starting from \<open>result\<close>; the call \<^verbatim>\<open>merge_dicts(data_1, data_2, path)\<close> starts
  it from the copy of \<open>data_1\<close>. The first conflict raises and ends the loop.
\<close>

function merge_dicts :: "'a pydict \<Rightarrow> 'a pydict \<Rightarrow> string \<Rightarrow> error + 'a pydict" where
  "merge_dicts result [] path = Inr result"
| "merge_dicts result ((key, val) # rest) path =
     (let current_path = (if path \<noteq> [] then path @ ''.'' @ key else key)
      in case map_of result key of
           None \<Rightarrow> merge_dicts (AList.update key val result) rest path
         | Some cur \<Rightarrow>
             (case (cur, val) of
                (Dict d1, Dict d2) \<Rightarrow>
                  (case merge_dicts d1 d2 current_path of
                     Inl e \<Rightarrow> Inl e
                   | Inr merged \<Rightarrow> merge_dicts (AList.update key (Dict merged) result) rest path)
              | _ \<Rightarrow> Inl (ConflictValueError (''The configs conflict at key: '' @ current_path))))"
  by pat_completeness auto
termination
  by (relation "measure (\<lambda>(r, d, p). size (Dict d))") auto

text \<open>
  Specification-side notions. A dictionary is well formed when its keys are
  distinct, at every level (every Python dictionary is). \<open>conflict_paths base overlay path\<close>
  lists, in the overlay's order, the dotted paths of the keys that are in both
  dictionaries with a value that is not a dictionary on at least one side,
  looking inside the values that are dictionaries on both sides.
\<close>

function wf_dict :: "'a pydict \<Rightarrow> bool" where
  "wf_dict [] \<longleftrightarrow> True"
| "wf_dict ((k, v) # rest) \<longleftrightarrow>
     k \<notin> fst ` set rest \<and> (case v of Dict d \<Rightarrow> wf_dict d | Leaf x \<Rightarrow> True) \<and> wf_dict rest"
  by pat_completeness auto
termination
  by (relation "measure (\<lambda>d. size (Dict d))") auto

function conflict_paths :: "'a pydict \<Rightarrow> 'a pydict \<Rightarrow> string \<Rightarrow> string list" where
  "conflict_paths base [] path = []"
| "conflict_paths base ((key, val) # rest) path =
     (let current_path = (if path \<noteq> [] then path @ ''.'' @ key else key)
      in (case map_of base key of
            None \<Rightarrow> []
          | Some cur \<Rightarrow>
              (case (cur, val) of
                 (Dict d1, Dict d2) \<Rightarrow> conflict_paths d1 d2 current_path
               | _ \<Rightarrow> [current_path]))
         @ conflict_paths base rest path)"
  by pat_completeness auto
termination
  by (relation "measure (\<lambda>(b, d, p). size (Dict d))") auto

text \<open>
  The keys of the flattened dictionary, and what one item contributes to them.
\<close>

definition flat_keys :: "'a pydict \<Rightarrow> string \<Rightarrow> string set" where
  "flat_keys d pk = fst ` set (flatten_dict d pk)"


definition new_key :: "string \<Rightarrow> string \<Rightarrow> string" where
  "new_key pk k = (if pk \<noteq> [] then pk @ ''.'' @ k else k)"


definition entry_keys :: "string \<Rightarrow> string \<times> 'a pyval \<Rightarrow> string set" where
  "entry_keys pk e = (case snd e of Dict d \<Rightarrow> flat_keys d (new_key pk (fst e)) | Leaf x \<Rightarrow> {new_key pk (fst e)})"

section \<open>The retry wrapper around the probes\<close>

text \<open>
  Modelled from the spec: the retry wrapper itself. The sources only decorate
  three functions with \<^verbatim>\<open>@retry(stop=stop_after_attempt(n), wait=wait_fixed(w), retry=...)\<close>
  of the third-party \<^verbatim>\<open>tenacity\<close> library, which is not part of the source tree; the
  loop below follows the spec's description of the wrapper (retry up to \<open>n\<close>
  attempts with a fixed delay; on exhaustion return the last result or re-raise
  the last exception), with the numbers and retry conditions of the decorators.

  The wrapped function is called once per attempt; \<open>f k\<close> is the outcome of its
  \<open>k\<close>-th call (\<open>Inr\<close> a returned value, \<open>Inl\<close> a raised exception). The loop returns the
  final outcome, the number of attempts made and the list of the delays slept,
  in seconds. An outcome the retry condition does not select ends the loop at
  once: a value is returned, an exception propagates. Both wrappers of the
  sources hand back the last outcome on exhaustion: \<^verbatim>\<open>retry_error_callback\<close> returns
  \<^verbatim>\<open>state.outcome.result()\<close>, and \<^verbatim>\<open>reraise=True\<close> raises the last exception.
\<close>

function retry_loop ::
  "nat \<Rightarrow> nat \<Rightarrow> (error + 'a \<Rightarrow> bool) \<Rightarrow> (nat \<Rightarrow> error + 'a) \<Rightarrow> nat \<Rightarrow> nat list
     \<Rightarrow> (error + 'a) \<times> nat \<times> nat list" where
  "retry_loop stop wait should_retry f attempt sleeps =
     (let outcome = f attempt
      in if should_retry outcome \<and> attempt < stop
         then retry_loop stop wait should_retry f (Suc attempt) (sleeps @ [wait])
         else (outcome, attempt, sleeps))"
  by pat_completeness auto
termination
  by (relation "measure (\<lambda>(stop, wait, should_retry, f, attempt, sleeps). stop - attempt)") auto

declare retry_loop.simps [simp del]

definition retry :: "nat \<Rightarrow> nat \<Rightarrow> (error + 'a \<Rightarrow> bool) \<Rightarrow> (nat \<Rightarrow> error + 'a)
     \<Rightarrow> (error + 'a) \<times> nat \<times> nat list" where
  "retry stop wait should_retry f = retry_loop stop wait should_retry f 1 []"

text \<open>\<^verbatim>\<open>retry_if_result(lambda x: x is False)\<close> and
  \<^verbatim>\<open>retry_if_exception_type(SecretAccessError)\<close>.\<close>

definition retry_if_result_is_False :: "error + bool \<Rightarrow> bool" where
  "retry_if_result_is_False outcome \<longleftrightarrow> outcome = Inr False"

fun retry_if_SecretAccessError :: "error + 'a \<Rightarrow> bool" where
  "retry_if_SecretAccessError (Inl (SecretAccessError msg)) = True"
| "retry_if_SecretAccessError outcome = False"

text \<open>
  \<^verbatim>\<open>check_metrics_endpoint\<close> (utils.py): one attempt is the HTTP request, which
  answers with a status code or raises \<^verbatim>\<open>requests.RequestException\<close>; the exception
  is caught and gives \<^verbatim>\<open>False\<close>.
\<close>

datatype http_outcome = Response nat | RequestException

definition metrics_attempt :: "http_outcome \<Rightarrow> error + bool" where
  "metrics_attempt r = Inr (case r of Response status_code \<Rightarrow> status_code = 200
                                    | RequestException \<Rightarrow> False)"

definition check_metrics_endpoint :: "(nat \<Rightarrow> http_outcome) \<Rightarrow> (error + bool) \<times> nat \<times> nat list" where
  "check_metrics_endpoint responses =
     retry 5 2 retry_if_result_is_False (\<lambda>k. metrics_attempt (responses k))"

text \<open>
  \<^verbatim>\<open>SnapClient.check\<close> (snap\_manager.py): one attempt reads the services of the snap,
  each with its optional \<^verbatim>\<open>active\<close> entry, and returns whether all are active; reading
  them may raise.
\<close>

definition services_active :: "(string \<times> bool option) list \<Rightarrow> bool" where
  "services_active services =
     list_all (\<lambda>(name, active). case active of None \<Rightarrow> False | Some b \<Rightarrow> b) services"

definition check_attempt :: "error + (string \<times> bool option) list \<Rightarrow> error + bool" where
  "check_attempt r = (case r of Inl e \<Rightarrow> Inl e | Inr services \<Rightarrow> Inr (services_active services))"

definition check :: "(nat \<Rightarrow> error + (string \<times> bool option) list) \<Rightarrow> (error + bool) \<times> nat \<times> nat list" where
  "check services_at = retry 5 2 retry_if_result_is_False (\<lambda>k. check_attempt (services_at k))"

text \<open>
  \<^verbatim>\<open>decode_secret_with_retry\<close> (utils.py): three attempts, five seconds apart, retried
  on \<^verbatim>\<open>SecretAccessError\<close> only; \<open>decode_secret_at k\<close> is the outcome of the \<open>k\<close>-th call of
  \<^verbatim>\<open>decode_secret\<close>.
\<close>

definition decode_secret_with_retry :: "(nat \<Rightarrow> error + 'a) \<Rightarrow> (error + 'a) \<times> nat \<times> nat list" where
  "decode_secret_with_retry decode_secret_at = retry 3 5 retry_if_SecretAccessError decode_secret_at"

section \<open>config.py and charm.py: the reconciliation of the charm\<close>

subsection \<open>The configuration\<close>

datatype Confinement = STRICT | CLASSIC

record SnapInfo =
  name :: string
  revision :: "int option"
  confinement :: Confinement

text \<open>
  The fields of \<^verbatim>\<open>CharmConfig\<close>, as the charm reads them through \<^verbatim>\<open>self.conf\<close>.
\<close>

record 'v CharmConfig =
  conf_snap_name :: "string option"
  conf_exporter_port :: "int option"
  conf_snap_classic :: bool
  conf_snap_channel :: "string option"
  conf_snap_revision :: "int option"
  conf_snap_config :: "'v pydict option"
  conf_metrics_path :: string
  conf_snap_plugs :: "string list option"
  conf_snap_config_secret :: "string option"

definition REQUIRED_FIELDS :: "string list" where
  "REQUIRED_FIELDS = [''snap_name'', ''exporter_port'']"

text \<open>\<^verbatim>\<open>getattr(self, field, None) is None\<close>, for the attribute names of the class; a
  name that is no attribute gives the default \<^verbatim>\<open>None\<close>.\<close>

definition getattr_is_None :: "'v CharmConfig \<Rightarrow> string \<Rightarrow> bool" where
  "getattr_is_None c field \<longleftrightarrow>
     (if field = ''snap_name'' then conf_snap_name c = None
      else if field = ''exporter_port'' then conf_exporter_port c = None
      else if field = ''snap_classic'' then False
      else if field = ''snap_channel'' then conf_snap_channel c = None
      else if field = ''snap_revision'' then conf_snap_revision c = None
      else if field = ''snap_config'' then conf_snap_config c = None
      else if field = ''metrics_path'' then False
      else if field = ''snap_plugs'' then conf_snap_plugs c = None
      else if field = ''snap_config_secret'' then conf_snap_config_secret c = None
      else True)"

text \<open>\<^verbatim>\<open>field.replace('_', '-')\<close>.\<close>

definition replace_underscores :: "string \<Rightarrow> string" where
  "replace_underscores field = map (\<lambda>c. if c = CHR ''_'' then CHR ''-'' else c) field"

fun missing_fields_loop :: "'v CharmConfig \<Rightarrow> string list \<Rightarrow> string list \<Rightarrow> string list" where
  "missing_fields_loop c [] missing_fields = missing_fields"
| "missing_fields_loop c (field # rest) missing_fields =
     missing_fields_loop c rest
       (if getattr_is_None c field then missing_fields @ [replace_underscores field]
        else missing_fields)"

definition check_required_fields :: "'v CharmConfig \<Rightarrow> string list option" where
  "check_required_fields c =
     (let missing_fields = missing_fields_loop c REQUIRED_FIELDS []
      in if missing_fields \<noteq> [] then Some missing_fields else None)"

subsection \<open>The charm, its collaborators and its state\<close>

text \<open>
  The calls the charm makes on its collaborators, in the order it makes them:
  the registry (by snap name), the snap client (install, remove, start, stop,
  ensure, unset, set, connect, the retried service check), the retried check of
  the metrics endpoint (by URL), and the two configuration steps that touch
  neither the snap nor the registry.
\<close>

datatype 'v call =
    RegisterCall string
  | UnregisterCall string
  | SnapInstall string int bool
  | SnapRemove string
  | SnapEnableAndStart string
  | SnapDisableAndStop string
  | SnapEnsure string int bool
  | SnapUnset string "string list"
  | SnapSet string "'v pydict"
  | SnapConnect string "string list"
  | SnapCheck string
  | CheckMetricsEndpoint string
  | SetWorkloadVersion
  | ConfigureAlerts

text \<open>
  The collaborators are outside the sources; the environment gives their
  answers. \<open>answer h c\<close> is the boolean the call \<open>c\<close> returns after the calls \<open>h\<close>
  (the methods of \<^verbatim>\<open>SnapClient\<close> that install, remove, start, stop, ensure, set, unset
  and connect turn a \<^verbatim>\<open>SnapError\<close> into \<^verbatim>\<open>False\<close>, and the check of the metrics endpoint
  turns a failed request into \<^verbatim>\<open>False\<close>). \<open>raised h c\<close> is the exception that escapes
  from the call instead, if any; it is consulted for the three calls the
  sources make outside any \<^verbatim>\<open>try\<close>: the service check, the reading of the snap
  version and the writing of the alert rules. \<open>get_config\<close> is the
  configuration the snap reports; \<open>load_config\<close> is the outcome of pydantic's
  validation (the messages of its errors, or the configuration); \<open>get_snap_info\<close>
  and \<open>decode_secret\<close> are the answers of the store and of the secret back end
  (the latter after its retries: the text of the exception, or the dictionary).
\<close>

record 'v env =
  answer :: "'v call list \<Rightarrow> 'v call \<Rightarrow> bool"
  raised :: "'v call list \<Rightarrow> 'v call \<Rightarrow> error option"
  get_config :: "'v call list \<Rightarrow> string \<Rightarrow> 'v pydict"
  load_config :: "string list + 'v CharmConfig"
  get_snap_info :: "string \<Rightarrow> string option \<Rightarrow> SnapInfo option"
  decode_secret :: "string \<Rightarrow> string + 'v pydict"
  cos_agent_related :: bool

datatype status = ActiveStatus | MaintenanceStatus string | BlockedStatus string

datatype event =
    InstallEvent | ConfigChangedEvent | UpdateStatusEvent | SecretChangedEvent
  | RelationChangedEvent

text \<open>
  The state one invocation works on: \<^verbatim>\<open>self.conf\<close>, the stored
  \<^verbatim>\<open>installed_snap_name\<close>, the unit's status, the name of the unit, the lock
  directory of the registry, the rules directory (its files, when it exists) and
  the calls made so far.
\<close>

record 'v charm =
  conf :: "'v CharmConfig"
  installed_snap_name :: "string option"
  unit_status :: status
  unit :: string
  LOCK_DIR :: lock_dir
  rules_dir :: "string list option"
  calls :: "'v call list"

type_synonym 'v result = "(error + unit) \<times> 'v charm"

text \<open>Sequencing: the next step runs unless the one before raised.\<close>

definition and_then :: "'v result \<Rightarrow> ('v charm \<Rightarrow> 'v result) \<Rightarrow> 'v result" where
  "and_then r f = (case r of (Inl e, s) \<Rightarrow> (Inl e, s) | (Inr u, s) \<Rightarrow> f s)"

definition call_env :: "'v env \<Rightarrow> 'v call \<Rightarrow> 'v charm \<Rightarrow> bool \<times> 'v charm" where
  "call_env e c s = (answer e (calls s) c, s\<lparr>calls := calls s @ [c]\<rparr>)"

text \<open>A call made outside any \<^verbatim>\<open>try\<close>: its exception, if it raises, leaves the
  helper.\<close>

definition call_unguarded :: "'v env \<Rightarrow> 'v call \<Rightarrow> 'v charm \<Rightarrow> (error + bool) \<times> 'v charm" where
  "call_unguarded e c s =
     (case raised e (calls s) c of
        Some err \<Rightarrow> (Inl err, s\<lparr>calls := calls s @ [c]\<rparr>)
      | None \<Rightarrow> (Inr (answer e (calls s) c), s\<lparr>calls := calls s @ [c]\<rparr>))"

definition log_and_set_status :: "status \<Rightarrow> 'v charm \<Rightarrow> 'v charm" where
  "log_and_set_status st s = s\<lparr>unit_status := st\<rparr>"

text \<open>The property \<^verbatim>\<open>snap_client\<close>: a client for \<^verbatim>\<open>conf.snap_name\<close> when that is a
  non-empty string.\<close>

definition snap_client :: "'v charm \<Rightarrow> string option" where
  "snap_client s =
     (case conf_snap_name (conf s) of
        None \<Rightarrow> None
      | Some n \<Rightarrow> if n \<noteq> [] then Some n else None)"

text \<open>Formatting inside the messages: \<^verbatim>\<open>str\<close> of an optional string, of an integer,
  of a list of strings (for keys without quotes or backslashes).\<close>

definition str_opt :: "string option \<Rightarrow> string" where
  "str_opt x = (case x of None \<Rightarrow> ''None'' | Some s \<Rightarrow> s)"

function str_nat :: "nat \<Rightarrow> string" where
  "str_nat n =
     (if n < 10 then [''0123456789'' ! n]
      else str_nat (n div 10) @ [''0123456789'' ! (n mod 10)])"
  by pat_completeness auto
termination
  by (relation "measure (\<lambda>n. n)") auto

declare str_nat.simps [simp del]

definition str_int :: "int \<Rightarrow> string" where
  "str_int i = (if i < 0 then ''-'' @ str_nat (nat (- i)) else str_nat (nat i))"

definition str_opt_int :: "int option \<Rightarrow> string" where
  "str_opt_int x = (case x of None \<Rightarrow> ''None'' | Some i \<Rightarrow> str_int i)"

definition repr_list :: "string list \<Rightarrow> string" where
  "repr_list xs = ''['' @ join '', '' (map (\<lambda>x. [CHR 0x27] @ x @ [CHR 0x27]) xs) @ '']''"

subsection \<open>The helper methods\<close>

text \<open>\<^verbatim>\<open>_remove\<close>.\<close>

definition helper_remove :: "'v env \<Rightarrow> 'v charm \<Rightarrow> 'v result" where
  "helper_remove e s =
     (case installed_snap_name s of
        None \<Rightarrow> (Inr (), s)
      | Some sname \<Rightarrow>
          (case unregister (unit s) sname (LOCK_DIR s) of
             (Inl err, d) \<Rightarrow> (Inl err, s\<lparr>LOCK_DIR := d, calls := calls s @ [UnregisterCall sname]\<rparr>)
           | (Inr u, d) \<Rightarrow>
               (let s1 = s\<lparr>LOCK_DIR := d, calls := calls s @ [UnregisterCall sname]\<rparr>
                in case is_used_by_other_units (unit s) sname d of
                     Inl err \<Rightarrow> (Inl err, s1)
                   | Inr used \<Rightarrow>
                       if \<not> used then
                         (let (removed, s2) = call_env e (SnapRemove sname) s1
                          in if \<not> removed
                             then (Inl (CharmUninstallError
                                     (''Failed to uninstall snap: '' @ sname @
                                      ''. See juju debug-log for details.'')), s2)
                             else (Inr (), s2\<lparr>installed_snap_name := None\<rparr>))
                       else (Inr (), s1\<lparr>installed_snap_name := None\<rparr>))))"

text \<open>\<^verbatim>\<open>_install\<close>.\<close>

definition helper_install :: "'v env \<Rightarrow> 'v charm \<Rightarrow> 'v result" where
  "helper_install e s =
     (case (snap_client s, conf_snap_revision (conf s)) of
        (Some client, Some snap_revision) \<Rightarrow>
          (let s1 = s\<lparr>LOCK_DIR := register (unit s) client (LOCK_DIR s),
                      calls := calls s @ [RegisterCall client]\<rparr>;
               (installed, s2) =
                 call_env e (SnapInstall client snap_revision (conf_snap_classic (conf s))) s1
           in if \<not> installed
              then (Inl (CharmInstallError
                      (''Failed to install snap: '' @ str_opt (conf_snap_name (conf s)) @
                       ''. See juju debug-log for details.'')), s2)
              else
                (let s3 = s2\<lparr>installed_snap_name := conf_snap_name (conf s)\<rparr>;
                     (started, s4) = call_env e (SnapEnableAndStart client) s3
                 in if \<not> started
                    then (Inl (CharmInstallError
                            (''Failed to start snap services for: '' @
                             str_opt (conf_snap_name (conf s)) @
                             ''. See juju debug-log for details.'')), s4)
                    else (Inr (), s4)))
      | _ \<Rightarrow> (Inr (), s))"

text \<open>\<^verbatim>\<open>_check_status\<close>. The required fields are checked first, then the services
  of the snap, the metrics endpoint and the relation.\<close>

definition helper_check_status :: "'v env \<Rightarrow> 'v charm \<Rightarrow> 'v result" where
  "helper_check_status e s =
     (case check_required_fields (conf s) of
        Some missing \<Rightarrow>
          (Inl (CharmStatusError
             (''Missing required configuration fields: '' @ join '', '' missing)), s)
      | None \<Rightarrow>
          (case (case snap_client s of
                   None \<Rightarrow> (Inr True, s)
                 | Some client \<Rightarrow> call_unguarded e (SnapCheck client) s) of
             (Inl err, s1) \<Rightarrow> (Inl err, s1)
           | (Inr active, s1) \<Rightarrow>
               if \<not> active
               then (Inl (CharmStatusError
                       (''Snap services for '' @ str_opt (conf_snap_name (conf s)) @
                        '' are not active.'')), s1)
               else
                 (let url = ''http://localhost:'' @ str_opt_int (conf_exporter_port (conf s)) @
                            ''/'' @ conf_metrics_path (conf s);
                      (reachable, s2) = call_env e (CheckMetricsEndpoint url) s1
                  in if \<not> reachable
                     then (Inl (CharmStatusError
                             (''Metrics endpoint for '' @ str_opt (conf_snap_name (conf s)) @
                              '' is not reachable.'')), s2)
                     else if \<not> cos_agent_related e
                     then (Inl (CharmStatusError ''Missing relation: [cos-agent]''), s2)
                     else (Inr (), s2))))"

text \<open>\<^verbatim>\<open>_get_snap_config_diff\<close>: the flattened keys of the snap's configuration that the
  new configuration does not have (the source returns them in the arbitrary
  order of a set; here in the order of the old configuration).\<close>

definition get_snap_config_diff :: "'v env \<Rightarrow> 'v charm \<Rightarrow> string list" where
  "get_snap_config_diff e s =
     (let old_config = (case snap_client s of None \<Rightarrow> [] | Some client \<Rightarrow> get_config e (calls s) client);
          new_config = (case conf_snap_config (conf s) of None \<Rightarrow> [] | Some c \<Rightarrow> c);
          old_keys = map fst (flatten_dict old_config []);
          new_keys = map fst (flatten_dict new_config [])
      in filter (\<lambda>k. k \<notin> set new_keys) old_keys)"

text \<open>\<^verbatim>\<open>_configure\<close>. Setting the workload version (which reads the version of the
  snap) and writing the alert rules come first, outside any \<^verbatim>\<open>try\<close>; they touch
  neither the registry nor the stored identity. \<open>configure_snap\<close> is the rest of
  the method.\<close>

definition configure_snap :: "'v env \<Rightarrow> 'v charm \<Rightarrow> 'v result" where
  "configure_snap e s =
     (let sname = str_opt (conf_snap_name (conf s))
      in case (snap_client s, conf_snap_revision (conf s)) of
           (Some client, Some snap_revision) \<Rightarrow>
             (let (stopped, s1) = call_env e (SnapDisableAndStop client) s;
                  (ensured, s2) =
                    call_env e (SnapEnsure client snap_revision (conf_snap_classic (conf s))) s1
              in if \<not> ensured
                 then (Inl (CharmConfigError
                         (''Failed to configure snap: '' @ sname @
                          ''. See juju debug-log for details.'')), s2)
                 else
                   (let keys_to_unset = get_snap_config_diff e s2;
                        (unset_ok, s3) =
                          (if keys_to_unset \<noteq> [] then call_env e (SnapUnset client keys_to_unset) s2
                           else (True, s2))
                    in if \<not> unset_ok
                       then (Inl (CharmConfigError
                               (''Failed to unset config keys '' @ repr_list keys_to_unset @
                                '' for snap: '' @ sname @
                                ''. See juju debug-log for details.'')), s3)
                       else
                         (let (set_ok, s4) =
                                (case conf_snap_config (conf s) of
                                   None \<Rightarrow> (True, s3)
                                 | Some c \<Rightarrow>
                                     if c \<noteq> [] then call_env e (SnapSet client c) s3 else (True, s3))
                          in if \<not> set_ok
                             then (Inl (CharmConfigError
                                     (''Failed to set config for snap: '' @ sname @
                                      ''. See juju debug-log for details.'')), s4)
                             else
                               (let (connected, s5) =
                                      (case conf_snap_plugs (conf s) of
                                         None \<Rightarrow> (True, s4)
                                       | Some plugs \<Rightarrow>
                                           if plugs \<noteq> [] then call_env e (SnapConnect client plugs) s4
                                           else (True, s4))
                                in if \<not> connected
                                   then (Inl (CharmConfigError
                                           (''Failed to connect plugs '' @
                                            repr_list (case conf_snap_plugs (conf s) of
                                                         None \<Rightarrow> [] | Some plugs \<Rightarrow> plugs) @
                                            '' for snap: '' @ sname @
                                            ''. See juju debug-log for details.'')), s5)
                                   else
                                     (let (started, s6) = call_env e (SnapEnableAndStart client) s5
                                      in if \<not> started
                                         then (Inl (CharmConfigError
                                                 (''Failed to restart snap services for: '' @
                                                  sname @
                                                  ''. See juju debug-log for details.'')), s6)
                                         else (Inr (), s6))))))
         | _ \<Rightarrow> (Inr (), s))"

definition helper_configure :: "'v env \<Rightarrow> 'v charm \<Rightarrow> 'v result" where
  "helper_configure e s =
     (case call_unguarded e SetWorkloadVersion s of
        (Inl err, s1) \<Rightarrow> (Inl err, s1)
      | (Inr u1, s1) \<Rightarrow>
          (case call_unguarded e ConfigureAlerts s1 of
             (Inl err, s2) \<Rightarrow> (Inl err, s2)
           | (Inr u2, s2) \<Rightarrow> configure_snap e s2))"

text \<open>\<^verbatim>\<open>_validate_config\<close>: the configuration is loaded, the revision and the
  confinement are resolved against the store, the secret (when one is named) is
  merged into the snap configuration, and only then \<^verbatim>\<open>self.conf\<close> is replaced.\<close>

definition resolve_snap :: "'v env \<Rightarrow> 'v CharmConfig \<Rightarrow> error + 'v CharmConfig" where
  "resolve_snap e config =
     (case conf_snap_name config of
        None \<Rightarrow> Inr config
      | Some n \<Rightarrow>
          if n = [] then Inr config
          else
            (case get_snap_info e n (conf_snap_channel config) of
               None \<Rightarrow>
                 Inl (CharmConfigError
                   (''Could not fetch info for snap '' @ n @ ''. See juju debug-log for details.''))
             | Some snap_info \<Rightarrow>
                 (let config1 = config\<lparr>conf_snap_revision :=
                        (case revision snap_info of
                           None \<Rightarrow> conf_snap_revision config
                         | Some r \<Rightarrow> if r \<noteq> 0 then Some r else conf_snap_revision config)\<rparr>
                  in if conf_snap_channel config1 \<noteq> None \<and> conf_snap_revision config1 = None
                     then Inl (CharmConfigError
                            (''Could not determine revision for snap '' @ n @ '' on channel '' @
                             str_opt (conf_snap_channel config1) @ ''.''))
                     else if confinement snap_info = CLASSIC \<and> \<not> conf_snap_classic config1
                     then Inl (CharmConfigError
                            (''Snap '' @ n @ '' requires classic confinement. '' @
                             ''Please enable '' @ [CHR 0x27] @ ''snap-classic'' @ [CHR 0x27] @ ''.''))
                     else Inr config1)))"

definition str_error :: "error \<Rightarrow> string" where
  "str_error err =
     (case err of
        ConflictValueError m \<Rightarrow> m
      | CharmConfigError m \<Rightarrow> m
      | CharmInstallError m \<Rightarrow> m
      | CharmStatusError m \<Rightarrow> m
      | CharmUninstallError m \<Rightarrow> m
      | SecretAccessError m \<Rightarrow> m
      | UncaughtError m \<Rightarrow> m
      | UnpackValueError \<Rightarrow> ''not enough or too many values to unpack''
      | FileNotFoundError \<Rightarrow> ''No such file or directory'')"

definition merge_secret :: "'v env \<Rightarrow> 'v CharmConfig \<Rightarrow> error + 'v CharmConfig" where
  "merge_secret e config =
     (case conf_snap_config_secret config of
        None \<Rightarrow> Inr config
      | Some secret_id \<Rightarrow>
          if secret_id = [] then Inr config
          else
            (case decode_secret e secret_id of
               Inl msg \<Rightarrow> Inl (CharmConfigError msg)
             | Inr secret_config \<Rightarrow>
                 (case merge_dicts secret_config
                         (case conf_snap_config config of None \<Rightarrow> [] | Some c \<Rightarrow> c) [] of
                    Inl err \<Rightarrow> Inl (CharmConfigError (str_error err))
                  | Inr merged \<Rightarrow> Inr (config\<lparr>conf_snap_config := Some merged\<rparr>))))"

definition helper_validate_config :: "'v env \<Rightarrow> 'v charm \<Rightarrow> 'v result" where
  "helper_validate_config e s =
     (case load_config e of
        Inl messages \<Rightarrow>
          (Inl (CharmConfigError (''Invalid configuration: '' @ join '', '' messages)), s)
      | Inr config \<Rightarrow>
          (case resolve_snap e config of
             Inl err \<Rightarrow> (Inl err, s)
           | Inr config1 \<Rightarrow>
               (case merge_secret e config1 of
                  Inl err \<Rightarrow> (Inl err, s)
                | Inr config2 \<Rightarrow> (Inr (), s\<lparr>conf := config2\<rparr>))))"

subsection \<open>The event handlers\<close>

definition is_CharmError :: "error \<Rightarrow> bool" where
  "is_CharmError err =
     (case err of
        CharmConfigError m \<Rightarrow> True
      | CharmInstallError m \<Rightarrow> True
      | CharmStatusError m \<Rightarrow> True
      | CharmUninstallError m \<Rightarrow> True
      | _ \<Rightarrow> False)"

text \<open>The body of the \<^verbatim>\<open>try\<close> of \<^verbatim>\<open>reconcile\<close> up to the status check, and the whole
  handler: a \<^verbatim>\<open>CharmError\<close> becomes the blocked status, any other exception leaves
  the handler.\<close>

definition reconcile_steps :: "'v env \<Rightarrow> event \<Rightarrow> 'v charm \<Rightarrow> 'v result" where
  "reconcile_steps e ev s =
     and_then (helper_validate_config e s) (\<lambda>s.
     and_then
       (if installed_snap_name s \<noteq> conf_snap_name (conf s)
        then and_then
               (helper_remove e
                  (log_and_set_status (MaintenanceStatus ''Installing charm resources'') s))
               (helper_install e)
        else (Inr (), s)) (\<lambda>s.
       if ev = ConfigChangedEvent
       then helper_configure e
              (log_and_set_status (MaintenanceStatus ''Updating configuration'') s)
       else (Inr (), s)))"

definition reconcile :: "'v env \<Rightarrow> event \<Rightarrow> 'v charm \<Rightarrow> 'v result" where
  "reconcile e ev s =
     (case and_then (reconcile_steps e ev s) (\<lambda>s.
             and_then (helper_check_status e s) (\<lambda>s.
               (Inr (), log_and_set_status ActiveStatus s))) of
        (Inl ce, s') \<Rightarrow>
          if is_CharmError ce
          then (Inr (), log_and_set_status (BlockedStatus (str_error ce)) s')
          else (Inl ce, s')
      | (Inr u, s') \<Rightarrow> (Inr u, s'))"

text \<open>\<^verbatim>\<open>remove\<close>: the handler of the remove event deletes the rules directory and
  calls \<^verbatim>\<open>_remove\<close>; it catches nothing.\<close>

definition remove :: "'v env \<Rightarrow> 'v charm \<Rightarrow> 'v result" where
  "remove e s =
     helper_remove e
       ((log_and_set_status (MaintenanceStatus ''Removing charm resources'') s)
          \<lparr>rules_dir := None\<rparr>)"

subsection \<open>Initial values\<close>

text \<open>The configuration \<^verbatim>\<open>CharmConfig()\<close> with the defaults of the class, and an
  environment in which every collaborator call succeeds, the store knows every
  snap at revision 7 with strict confinement, and the loaded configuration is
  the one given.\<close>

definition default_config :: "'v CharmConfig" where
  "default_config =
     \<lparr>conf_snap_name = None, conf_exporter_port = None, conf_snap_classic = False,
      conf_snap_channel = None, conf_snap_revision = None, conf_snap_config = None,
      conf_metrics_path = ''metrics'', conf_snap_plugs = None, conf_snap_config_secret = None\<rparr>"

definition obliging_env :: "'v CharmConfig \<Rightarrow> 'v env" where
  "obliging_env config =
     \<lparr>answer = (\<lambda>h c. True), raised = (\<lambda>h c. None), get_config = (\<lambda>h n. []), load_config = Inr config,
      get_snap_info = (\<lambda>n channel. Some \<lparr>name = n, revision = Some 7, confinement = STRICT\<rparr>),
      decode_secret = (\<lambda>secret_id. Inr []), cos_agent_related = True\<rparr>"

definition fresh_charm :: "string \<Rightarrow> string option \<Rightarrow> lock_dir \<Rightarrow> 'v charm" where
  "fresh_charm u stored d =
     \<lparr>conf = default_config, installed_snap_name = stored, unit_status = MaintenanceStatus [],
      unit = u, LOCK_DIR = d, rules_dir = None, calls = []\<rparr>"

subsection \<open>Specification-side notions\<close>

text \<open>A list of calls without the removal of a snap; a later state that keeps
  the stored identity and adds only such calls.\<close>

definition no_removal :: "'v call list \<Rightarrow> bool" where
  "no_removal cs \<longleftrightarrow> (\<forall>n. SnapRemove n \<notin> set cs)"

definition extends_without_removal :: "'v charm \<Rightarrow> 'v charm \<Rightarrow> bool" where
  "extends_without_removal s s' \<longleftrightarrow>
     installed_snap_name s' = installed_snap_name s \<and>
     (\<exists>rest. calls s' = calls s @ rest \<and> no_removal rest)"

text \<open>An outcome of a helper that \<^verbatim>\<open>reconcile\<close> turns into a status: it returned, or it
  raised a \<^verbatim>\<open>CharmError\<close>; the only other exceptions are those that escape from a
  collaborator.\<close>

definition caught_or_escaped :: "'v env \<Rightarrow> error + unit \<Rightarrow> bool" where
  "caught_or_escaped e r \<longleftrightarrow>
     (case r of
        Inr u \<Rightarrow> True
      | Inl err \<Rightarrow> is_CharmError err \<or> (\<exists>h c. raised e h c = Some err))"

section \<open>Properties of the registry\<close>

subsection \<open>Splitting and parsing\<close>

lemma split_from_not_Nil: "split_from sep cur xs \<noteq> []"
  by (induction sep cur xs rule: split_from.induct) auto

lemma split_from_no_occurrence:
  "\<not> sublist sep xs \<Longrightarrow> split_from sep cur xs = [cur @ xs]"
  by (induction xs arbitrary: cur) (auto simp: sublist_Cons_right)

lemma split_from_first:
  "c \<notin> set a \<Longrightarrow>
   split_from (c # sep') cur (a @ (c # sep') @ b) = (cur @ a) # split_from (c # sep') [] b"
  by (induction a arbitrary: cur) auto

lemma split_from_single:
  "sep \<noteq> [] \<Longrightarrow> split_from sep cur xs = [a] \<Longrightarrow> a = cur @ xs \<and> \<not> sublist sep xs"
proof (induction xs arbitrary: cur)
  case Nil
  then show ?case by simp
next
  case (Cons c cs)
  from Cons.prems have np: "\<not> prefix sep (c # cs)"
    by (auto simp: split_from_not_Nil split: if_splits)
  with Cons.prems have "split_from sep (cur @ [c]) cs = [a]" by simp
  from Cons.IH [OF Cons.prems(1) this] np show ?case
    by (simp add: sublist_Cons_right)
qed

lemma split_from_pair:
  "split_from sep cur xs = [a, b] \<Longrightarrow>
   \<exists>a'. a = cur @ a' \<and> xs = a' @ sep @ b \<and> \<not> sublist sep a' \<and> \<not> sublist sep b"
proof (induction xs arbitrary: cur)
  case Nil
  then show ?case by simp
next
  case (Cons c cs)
  show ?case
  proof (cases "sep \<noteq> [] \<and> prefix sep (c # cs)")
    case True
    with Cons.prems have a: "a = cur" and r: "split_from sep [] (drop (length sep) (c # cs)) = [b]"
      by simp_all
    from True r have b: "b = drop (length sep) (c # cs)" and nb: "\<not> sublist sep b"
      using split_from_single [of sep "[]" "drop (length sep) (c # cs)" b] by simp_all
    from True have "c # cs = sep @ drop (length sep) (c # cs)"
      by (metis append_eq_conv_conj prefix_def)
    with a b nb True show ?thesis
      by (intro exI [of _ "[]"]) auto
  next
    case False
    with Cons.prems have "split_from sep (cur @ [c]) cs = [a, b]"
      by (simp split: if_splits)
    from Cons.IH [OF this] obtain a' where
      a': "a = (cur @ [c]) @ a'" "cs = a' @ sep @ b" "\<not> sublist sep a'" "\<not> sublist sep b"
      by blast
    have ne: "sep \<noteq> []" using a'(4) by auto
    have "\<not> prefix sep (c # a')"
    proof
      assume "prefix sep (c # a')"
      then have "prefix sep (c # cs)" using a'(2) by (metis append_Cons prefix_order.trans prefixI)
      with False ne show False by simp
    qed
    with a'(3) have "\<not> sublist sep (c # a')" by (simp add: sublist_Cons_right)
    with a' show ?thesis by (intro exI [of _ "c # a'"]) simp
  qed
qed


lemma normalize_name_no_dot: "CHR ''.'' \<notin> set (normalize_name u)"
  by (auto simp: normalize_name_def is_word_char_def)

lemma normalize_name_idem: "normalize_name (normalize_name u) = normalize_name u"
  by (simp add: normalize_name_def is_word_char_def)

lemma from_filename_filename:
  assumes "CHR ''.'' \<notin> set sn" and "CHR ''_'' \<notin> set sn"
    and "\<not> sublist SEPARATOR_UNIT (normalize_name u)"
  shows "from_filename (filename \<lparr>unit_name = u, snap_name = sn\<rparr>) =
           Inr \<lparr>unit_name = normalize_name u, snap_name = sn\<rparr>"
proof -
  let ?n = "normalize_name u"
  let ?rest = "sn @ SEPARATOR_UNIT @ ?n"
  have "CHR ''.'' \<notin> set ?rest"
    using assms(1) normalize_name_no_dot [of u] by (simp add: SEPARATOR_UNIT_def)
  then have "\<not> sublist PREFIX ?rest"
    using set_mono_sublist [of PREFIX ?rest] by (auto simp: PREFIX_def)
  then have "split_from PREFIX [] ?rest = [?rest]"
    using split_from_no_occurrence [of PREFIX ?rest "[]"] by simp
  moreover have "split_from PREFIX [] (PREFIX @ ?rest) = [] # split_from PREFIX [] ?rest"
    using split_from_first [of "CHR ''L''" "[]" "''CK..''" "[]" ?rest] by (simp add: PREFIX_def)
  ultimately have p: "str_split (filename \<lparr>unit_name = u, snap_name = sn\<rparr>) PREFIX = [[], ?rest]"
    by (simp add: str_split_def filename_def)
  have "split_from SEPARATOR_UNIT [] ?rest = sn # split_from SEPARATOR_UNIT [] ?n"
    using split_from_first [of "CHR ''_''" sn "''_''" "[]" ?n] assms(2)
    by (simp add: SEPARATOR_UNIT_def)
  then have "str_split ?rest SEPARATOR_UNIT = [sn, ?n]"
    using split_from_no_occurrence [OF assms(3), of "[]"] by (simp add: str_split_def)
  with p show ?thesis by (simp add: from_filename_def)
qed


subsection \<open>Enumerating the holders\<close>

lemma from_filename_error: "from_filename f = Inl e \<Longrightarrow> e = UnpackValueError"
  by (auto simp: from_filename_def split: list.splits)

lemma get_units_loop_eq:
  "get_units_loop sn d U =
     (if \<forall>f \<in> set d. \<exists>r. from_filename f = Inr r
      then Inr (U \<union> holders sn d) else Inl UnpackValueError)"
proof (induction d arbitrary: U)
  case Nil
  then show ?case by (simp add: holders_def)
next
  case (Cons f fs)
  show ?case
  proof (cases "from_filename f")
    case (Inl e)
    then show ?thesis using from_filename_error [OF Inl] by auto
  next
    case (Inr r)
    have "holders sn (f # fs) = (if snap_name r = sn then {unit_name r} else {}) \<union> holders sn fs"
      using Inr by (auto simp: holders_def)
    then show ?thesis using Inr Cons.IH by auto
  qed
qed

lemma get_units_eq:
  "get_units sn d =
     (if \<forall>f \<in> set d. \<exists>r. from_filename f = Inr r
      then Inr (holders sn d) else Inl UnpackValueError)"
  by (simp add: get_units_def get_units_loop_eq)

lemma holders_iff:
  "u \<in> holders sn d \<longleftrightarrow>
     (\<exists>f \<in> set d. \<exists>r. from_filename f = Inr r \<and> snap_name r = sn \<and> unit_name r = u)"
  unfolding holders_def by (simp only: mem_Collect_eq) metis

lemma holders_append: "holders sn (d @ e) = holders sn d \<union> holders sn e"
  by (auto simp: holders_def)

lemma holders_single:
  "from_filename f = Inr r \<Longrightarrow>
   holders sn [f] = (if snap_name r = sn then {unit_name r} else {})"
  by (auto simp: holders_def)

text \<open>
  Claim C7. \<^verbatim>\<open>unregister\<close> for a unit and snap without a matching registration
  raises \<^verbatim>\<open>FileNotFoundError\<close> (it is not a silent no-op) and leaves the lock
  directory as it was: whenever the registration file is not in the directory,
  and in particular (for a snap name without \<open>.\<close> and \<open>_\<close> and a normalized unit
  name without a double underscore) whenever \<^verbatim>\<open>get_units\<close> does not list the unit.
\<close>

theorem unregister_missing_fails:
  "(filename \<lparr>unit_name = p, snap_name = sn\<rparr> \<notin> set d \<longrightarrow>
      unregister p sn d = (Inl FileNotFoundError, d)) \<and>
   (CHR ''.'' \<notin> set sn \<and> CHR ''_'' \<notin> set sn \<and>
    \<not> sublist SEPARATOR_UNIT (normalize_name p) \<and>
    get_units sn d = Inr U \<and> normalize_name p \<notin> U \<longrightarrow>
      unregister p sn d = (Inl FileNotFoundError, d))"
proof (intro conjI impI)
  assume "filename \<lparr>unit_name = p, snap_name = sn\<rparr> \<notin> set d"
  then show "unregister p sn d = (Inl FileNotFoundError, d)"
    by (simp add: unregister_def)
next
  let ?fn = "filename \<lparr>unit_name = p, snap_name = sn\<rparr>"
  assume a: "CHR ''.'' \<notin> set sn \<and> CHR ''_'' \<notin> set sn \<and>
    \<not> sublist SEPARATOR_UNIT (normalize_name p) \<and>
    get_units sn d = Inr U \<and> normalize_name p \<notin> U"
  then have parse: "from_filename ?fn = Inr \<lparr>unit_name = normalize_name p, snap_name = sn\<rparr>"
    using from_filename_filename [of sn p] by simp
  from a have U: "U = holders sn d" by (auto simp: get_units_eq split: if_splits)
  have "?fn \<notin> set d"
  proof
    assume "?fn \<in> set d"
    with parse have "normalize_name p \<in> holders sn d" unfolding holders_iff by force
    with a U show False by simp
  qed
  then show "unregister p sn d = (Inl FileNotFoundError, d)"
    by (simp add: unregister_def)
qed

theorem unregister_missing_fails_witness:
  "get_units ''node-exporter'' [''LCK..node-exporter__app_1''] = Inr {''app_1''} \<and>
   normalize_name ''app/0'' \<notin> {''app_1''} \<and>
   filename \<lparr>unit_name = ''app/0'', snap_name = ''node-exporter''\<rparr>
     \<notin> set [''LCK..node-exporter__app_1''] \<and>
   unregister ''app/0'' ''node-exporter'' [''LCK..node-exporter__app_1'']
     = (Inl FileNotFoundError, [''LCK..node-exporter__app_1''])"
proof -
  have h1: "CHR ''.'' \<notin> set ''node-exporter'' \<and> CHR ''_'' \<notin> set ''node-exporter''"
    by simp
  have h2: "\<not> sublist SEPARATOR_UNIT (normalize_name ''app/0'')"
    by (simp add: SEPARATOR_UNIT_def normalize_name_def is_word_char_def sublist_Cons_right)
  have h3: "get_units ''node-exporter'' [''LCK..node-exporter__app_1''] = Inr {''app_1''}"
    by (simp add: get_units_def from_filename_def str_split_def PREFIX_def SEPARATOR_UNIT_def)
  have h4: "normalize_name ''app/0'' \<notin> {''app_1''}"
    by (simp add: normalize_name_def is_word_char_def)
  have h5: "filename \<lparr>unit_name = ''app/0'', snap_name = ''node-exporter''\<rparr>
     \<notin> set [''LCK..node-exporter__app_1'']"
    by (simp add: filename_def PREFIX_def SEPARATOR_UNIT_def normalize_name_def is_word_char_def)
  from unregister_missing_fails
    [of "''app/0''" "''node-exporter''" "[''LCK..node-exporter__app_1'']" "{''app_1''}"]
    h1 h2 h3 h4
  have "unregister ''app/0'' ''node-exporter'' [''LCK..node-exporter__app_1'']
     = (Inl FileNotFoundError, [''LCK..node-exporter__app_1''])"
    by blast
  with h3 h4 h5 show ?thesis by blast
qed

subsection \<open>Register, list, unregister\<close>

lemma canonical_dir_parses:
  "canonical_dir d \<Longrightarrow> f \<in> set d \<Longrightarrow> \<exists>r. from_filename f = Inr r \<and> filename r = f"
  unfolding canonical_dir_def by (cases "from_filename f") (auto split: sum.splits)

text \<open>
  Claim C5, as amended. The registry stores and lists the normalized unit name.
  For a snap name without \<open>.\<close> and \<open>_\<close> (every valid snap name), a unit whose
  normalized name has no double underscore, and a canonical directory: after
  \<^verbatim>\<open>register\<close> the set returned by \<^verbatim>\<open>get_units\<close> contains the normalized unit name,
  and after the matching \<^verbatim>\<open>unregister\<close> it no longer does.
\<close>

theorem register_then_unregister_normalized:
  assumes sn: "CHR ''.'' \<notin> set sn" "CHR ''_'' \<notin> set sn"
    and p: "\<not> sublist SEPARATOR_UNIT (normalize_name p)"
    and d: "canonical_dir d"
  shows "(\<exists>U. get_units sn (register p sn d) = Inr U \<and> normalize_name p \<in> U) \<and>
         (\<exists>d' U'. unregister p sn (register p sn d) = (Inr (), d') \<and>
                   get_units sn d' = Inr U' \<and> normalize_name p \<notin> U')"
proof -
  let ?fn = "filename \<lparr>unit_name = p, snap_name = sn\<rparr>"
  have parse: "from_filename ?fn = Inr \<lparr>unit_name = normalize_name p, snap_name = sn\<rparr>"
    by (rule from_filename_filename [OF sn p])
  have mem: "?fn \<in> set (register p sn d)" and sub: "set (register p sn d) \<subseteq> insert ?fn (set d)"
    by (auto simp: register_def Let_def)
  have all: "\<forall>f \<in> set (register p sn d). \<exists>r. from_filename f = Inr r"
    using sub parse canonical_dir_parses [OF d] by blast
  have "normalize_name p \<in> holders sn (register p sn d)"
    unfolding holders_def using mem parse by force
  with all have first: "\<exists>U. get_units sn (register p sn d) = Inr U \<and> normalize_name p \<in> U"
    by (simp add: get_units_eq)
  let ?d' = "removeAll ?fn (register p sn d)"
  have un: "unregister p sn (register p sn d) = (Inr (), ?d')"
    using mem by (simp add: unregister_def Let_def)
  have all': "\<forall>f \<in> set ?d'. \<exists>r. from_filename f = Inr r"
    using all by simp
  have "normalize_name p \<notin> holders sn ?d'"
  proof
    assume "normalize_name p \<in> holders sn ?d'"
    then have "\<exists>f r. f \<in> set ?d' \<and> from_filename f = Inr r \<and>
      snap_name r = sn \<and> unit_name r = normalize_name p"
      unfolding holders_iff by blast
    then obtain f r where f: "f \<in> set ?d'" "from_filename f = Inr r"
      "snap_name r = sn" "unit_name r = normalize_name p"
      by blast
    from f(1) sub have "f \<in> set d" "f \<noteq> ?fn" by auto
    from canonical_dir_parses [OF d this(1)] f(2) have "filename r = f" by auto
    then have "f = ?fn" using f(3,4) by (simp add: filename_def normalize_name_idem)
    with \<open>f \<noteq> ?fn\<close> show False by simp
  qed
  with all' un have "\<exists>d' U'. unregister p sn (register p sn d) = (Inr (), d') \<and>
                   get_units sn d' = Inr U' \<and> normalize_name p \<notin> U'"
    by (simp add: get_units_eq)
  with first show ?thesis by blast
qed

text \<open>
  Claim C5 as stated fails for a unit name that normalization changes: after the
  unit \<open>app/0\<close> registers, \<^verbatim>\<open>get_units\<close> returns \<open>{app_0}\<close>, which does not contain
  \<open>app/0\<close>.
\<close>

theorem register_lists_raw_id_counterexample:
  "\<not> (\<exists>U. get_units ''node-exporter'' (register ''app/0'' ''node-exporter'' []) = Inr U
          \<and> ''app/0'' \<in> U)"
  by (simp add: register_def filename_def normalize_name_def is_word_char_def get_units_def
      from_filename_def str_split_def PREFIX_def SEPARATOR_UNIT_def)

theorem register_then_unregister_normalized_witness:
  "CHR ''.'' \<notin> set ''node-exporter'' \<and> CHR ''_'' \<notin> set ''node-exporter'' \<and>
   \<not> sublist SEPARATOR_UNIT (normalize_name ''app/0'') \<and>
   canonical_dir [''LCK..node-exporter__app_1''] \<and>
   (\<exists>U. get_units ''node-exporter''
          (register ''app/0'' ''node-exporter'' [''LCK..node-exporter__app_1'']) = Inr U \<and>
        normalize_name ''app/0'' \<in> U) \<and>
   (\<exists>d' U'. unregister ''app/0'' ''node-exporter''
          (register ''app/0'' ''node-exporter'' [''LCK..node-exporter__app_1'']) = (Inr (), d') \<and>
        get_units ''node-exporter'' d' = Inr U' \<and> normalize_name ''app/0'' \<notin> U')"
proof -
  have h1: "CHR ''.'' \<notin> set ''node-exporter''" and h2: "CHR ''_'' \<notin> set ''node-exporter''"
    by simp_all
  have h3: "\<not> sublist SEPARATOR_UNIT (normalize_name ''app/0'')"
    by (simp add: SEPARATOR_UNIT_def normalize_name_def is_word_char_def sublist_Cons_right)
  have h4: "canonical_dir [''LCK..node-exporter__app_1'']"
    by (simp add: canonical_dir_def from_filename_def str_split_def filename_def
        PREFIX_def SEPARATOR_UNIT_def normalize_name_def is_word_char_def)
  from register_then_unregister_normalized [OF h1 h2 h3 h4] h1 h2 h3 h4
  show ?thesis by blast
qed

subsection \<open>File names that do not parse\<close>

lemma from_filename_accepted:
  assumes "from_filename f = Inr r"
  shows "accepted_shape f"
proof -
  from assms obtain junk rest where s1: "split_from PREFIX [] f = [junk, rest]"
    by (auto simp: from_filename_def str_split_def split: list.splits)
  with assms obtain sn un where s2: "split_from SEPARATOR_UNIT [] rest = [sn, un]"
    by (auto simp: from_filename_def str_split_def split: list.splits)
  from split_from_pair [OF s1] have f: "f = junk @ PREFIX @ rest"
    and n1: "\<not> sublist PREFIX junk" "\<not> sublist PREFIX rest" by auto
  from split_from_pair [OF s2] have r: "rest = sn @ SEPARATOR_UNIT @ un"
    and n2: "\<not> sublist SEPARATOR_UNIT sn" "\<not> sublist SEPARATOR_UNIT un" by auto
  show ?thesis unfolding accepted_shape_def using f n1 r n2 by blast
qed

text \<open>
  Claim C10, as amended. If the lock directory holds a file name that cannot be
  written as some text without the prefix, then \<open>LCK..\<close>, a snap name, one \<open>__\<close>
  and a unit name (the prefix occurring nowhere else, the separator in neither
  name), then \<^verbatim>\<open>get_units\<close> raises instead of skipping the file, and so does
  \<^verbatim>\<open>is_used_by_other_units\<close>, for every snap asked about.
\<close>

theorem get_units_raises_on_unaccepted_name:
  assumes "f \<in> set d" and "\<not> accepted_shape f"
  shows "get_units sn d = Inl UnpackValueError \<and>
         is_used_by_other_units self sn d = Inl UnpackValueError"
proof -
  from assms(2) from_filename_accepted [of f] have "\<not> (\<exists>r. from_filename f = Inr r)" by blast
  with assms(1) have "get_units sn d = Inl UnpackValueError"
    by (auto simp: get_units_eq)
  then show ?thesis by (simp add: is_used_by_other_units_def)
qed

theorem get_units_raises_on_unaccepted_name_witness:
  "''README'' \<in> set [''LCK..node-exporter__app_0'', ''README''] \<and> \<not> accepted_shape ''README'' \<and>
   get_units ''node-exporter'' [''LCK..node-exporter__app_0'', ''README''] = Inl UnpackValueError \<and>
   is_used_by_other_units ''app/0'' ''node-exporter'' [''LCK..node-exporter__app_0'', ''README'']
     = Inl UnpackValueError"
proof -
  have h1: "''README'' \<in> set [''LCK..node-exporter__app_0'', ''README'']" by simp
  have h2: "\<not> accepted_shape ''README''"
  proof
    assume "accepted_shape ''README''"
    then obtain junk rest where "''README'' = junk @ PREFIX @ rest"
      unfolding accepted_shape_def by blast
    then have "set ''README'' = set (junk @ PREFIX @ rest)" by simp
    then have "CHR ''.'' \<in> set ''README''" by (simp add: PREFIX_def)
    then show False by simp
  qed
  from get_units_raises_on_unaccepted_name [OF h1 h2] h1 h2 show ?thesis by blast
qed

text \<open>
  Claim C10 as stated fails for a name with text before the prefix: \<open>xLCK..a__b\<close>
  does not consist of the prefix followed by a snap name, a separator and a unit
  name, yet \<^verbatim>\<open>get_units\<close> does not raise; it counts \<open>b\<close> as a holder of snap \<open>a\<close>.
\<close>

theorem get_units_accepts_leading_junk_counterexample:
  "\<not> claimed_shape ''xLCK..a__b'' \<and> get_units ''a'' [''xLCK..a__b''] = Inr {''b''}"
proof -
  have "\<not> claimed_shape ''xLCK..a__b''"
    by (auto simp: claimed_shape_def PREFIX_def)
  moreover have "get_units ''a'' [''xLCK..a__b''] = Inr {''b''}"
    by (simp add: get_units_def from_filename_def str_split_def PREFIX_def SEPARATOR_UNIT_def)
  ultimately show ?thesis by simp
qed

text \<open>The record of a snap whose name contains the separator makes the listing raise.\<close>

lemma get_units_snap_name_with_separator:
  "get_units ''my__snap'' (register ''unit-0'' ''my__snap'' []) = Inl UnpackValueError"
  by (simp add: register_def filename_def normalize_name_def is_word_char_def get_units_def
      from_filename_def str_split_def PREFIX_def SEPARATOR_UNIT_def)

subsection \<open>Use by other units\<close>

text \<open>
  Claim C1, as amended. Let the snap name have no \<open>.\<close> and no \<open>_\<close>, let \<open>p1\<close> be a
  unit name that normalization leaves unchanged, let \<open>p2\<close> be a unit whose
  normalized name differs from \<open>p1\<close> (neither normalized name with a double
  underscore), and let the directory parse and hold no record for the snap. Then
  \<^verbatim>\<open>is_used_by_other_units\<close> for \<open>p1\<close> is false once \<open>p1\<close> has registered, true once
  \<open>p2\<close> has registered too, and false again after \<open>p2\<close> has unregistered. In every
  directory it is true exactly when \<^verbatim>\<open>get_units\<close> returns some name other than \<open>p1\<close>.
\<close>

theorem is_used_by_other_units_normalized_peers:
  assumes sn: "CHR ''.'' \<notin> set sn" "CHR ''_'' \<notin> set sn"
    and p1: "normalize_name p1 = p1" "\<not> sublist SEPARATOR_UNIT p1"
    and p2: "\<not> sublist SEPARATOR_UNIT (normalize_name p2)" "normalize_name p2 \<noteq> p1"
    and d: "get_units sn d = Inr {}"
  shows "is_used_by_other_units p1 sn (register p1 sn d) = Inr False \<and>
         is_used_by_other_units p1 sn (register p2 sn (register p1 sn d)) = Inr True \<and>
         (\<exists>d'. unregister p2 sn (register p2 sn (register p1 sn d)) = (Inr (), d') \<and>
               is_used_by_other_units p1 sn d' = Inr False) \<and>
         (\<forall>d0 b. is_used_by_other_units p1 sn d0 = Inr b \<longleftrightarrow>
               (\<exists>U. get_units sn d0 = Inr U \<and> b = (\<exists>u \<in> U. u \<noteq> p1)))"
proof -
  let ?f1 = "filename \<lparr>unit_name = p1, snap_name = sn\<rparr>"
  let ?f2 = "filename \<lparr>unit_name = p2, snap_name = sn\<rparr>"
  have parse1: "from_filename ?f1 = Inr \<lparr>unit_name = p1, snap_name = sn\<rparr>"
    using from_filename_filename [OF sn, of p1] p1 by simp
  have parse2: "from_filename ?f2 = Inr \<lparr>unit_name = normalize_name p2, snap_name = sn\<rparr>"
    by (rule from_filename_filename [OF sn p2(1)])
  from d have all: "\<forall>f \<in> set d. \<exists>r. from_filename f = Inr r" and empty: "holders sn d = {}"
    by (auto simp: get_units_eq split: if_splits)
  have "p1 \<notin> holders sn d" "normalize_name p2 \<notin> holders sn d" using empty by simp_all
  then have notin: "?f1 \<notin> set d" "?f2 \<notin> set d"
    unfolding holders_iff using parse1 parse2 by force+
  have ne: "?f1 \<noteq> ?f2" using parse1 parse2 p2(2) by auto
  have r1: "register p1 sn d = d @ [?f1]" using notin by (simp add: register_def)
  have r2: "register p2 sn (d @ [?f1]) = d @ [?f1, ?f2]"
    using notin ne by (simp add: register_def)
  have u: "unregister p2 sn (d @ [?f1, ?f2]) = (Inr (), d @ [?f1])"
    using notin ne by (simp add: unregister_def)
  have g1: "get_units sn (d @ [?f1]) = Inr {p1}"
    using all parse1 empty by (simp add: get_units_eq holders_append holders_single)
  have "holders sn [?f1, ?f2] = {p1, normalize_name p2}"
    using holders_append [of sn "[?f1]" "[?f2]"] parse1 parse2
    by (auto simp: holders_single)
  then have g2: "get_units sn (d @ [?f1, ?f2]) = Inr {p1, normalize_name p2}"
    using all parse1 parse2 empty by (simp add: get_units_eq holders_append)
  have a: "is_used_by_other_units p1 sn (register p1 sn d) = Inr False"
    using r1 g1 by (simp add: is_used_by_other_units_def)
  have b: "is_used_by_other_units p1 sn (register p2 sn (register p1 sn d)) = Inr True"
    using r1 r2 g2 p2(2) by (simp add: is_used_by_other_units_def)
  have c: "\<exists>d'. unregister p2 sn (register p2 sn (register p1 sn d)) = (Inr (), d') \<and>
               is_used_by_other_units p1 sn d' = Inr False"
    using r1 r2 u g1 by (simp add: is_used_by_other_units_def)
  have e: "\<forall>d0 b. is_used_by_other_units p1 sn d0 = Inr b \<longleftrightarrow>
               (\<exists>U. get_units sn d0 = Inr U \<and> b = (\<exists>u \<in> U. u \<noteq> p1))"
    by (auto simp: is_used_by_other_units_def split: sum.splits)
  from a b c e show ?thesis by blast
qed

text \<open>
  Claim C1 as stated fails for two distinct units whose names normalize to the
  same file name: \<open>unit.0\<close> registers after \<open>unit_0\<close>, and \<open>unit_0\<close> still sees no
  other user.
\<close>

theorem is_used_by_other_units_collision_counterexample:
  "''unit_0'' \<noteq> ''unit.0'' \<and>
   is_used_by_other_units ''unit_0'' ''node-exporter''
     (register ''unit.0'' ''node-exporter'' (register ''unit_0'' ''node-exporter'' [])) = Inr False"
  by (simp add: is_used_by_other_units_def register_def filename_def normalize_name_def
      is_word_char_def get_units_def from_filename_def str_split_def PREFIX_def SEPARATOR_UNIT_def)

text \<open>
  With a unit name that normalization changes, the comparison of the listed
  (normalized) names with the manager's own (raw) name counts the unit itself.
\<close>

lemma is_used_by_other_units_counts_own_raw_name:
  "is_used_by_other_units ''app/0'' ''node-exporter''
     (register ''app/0'' ''node-exporter'' []) = Inr True"
  by (simp add: is_used_by_other_units_def register_def filename_def normalize_name_def
      is_word_char_def get_units_def from_filename_def str_split_def PREFIX_def SEPARATOR_UNIT_def)

theorem is_used_by_other_units_normalized_peers_witness:
  "CHR ''.'' \<notin> set ''node-exporter'' \<and> CHR ''_'' \<notin> set ''node-exporter'' \<and>
   normalize_name ''app_0'' = ''app_0'' \<and> \<not> sublist SEPARATOR_UNIT ''app_0'' \<and>
   \<not> sublist SEPARATOR_UNIT (normalize_name ''app/1'') \<and> normalize_name ''app/1'' \<noteq> ''app_0'' \<and>
   get_units ''node-exporter'' [''LCK..other-snap__app_0''] = Inr {} \<and>
   is_used_by_other_units ''app_0'' ''node-exporter''
     (register ''app_0'' ''node-exporter'' [''LCK..other-snap__app_0'']) = Inr False \<and>
   is_used_by_other_units ''app_0'' ''node-exporter''
     (register ''app/1'' ''node-exporter''
       (register ''app_0'' ''node-exporter'' [''LCK..other-snap__app_0''])) = Inr True \<and>
   (\<exists>d'. unregister ''app/1'' ''node-exporter''
          (register ''app/1'' ''node-exporter''
            (register ''app_0'' ''node-exporter'' [''LCK..other-snap__app_0''])) = (Inr (), d') \<and>
        is_used_by_other_units ''app_0'' ''node-exporter'' d' = Inr False)"
proof -
  have h1: "CHR ''.'' \<notin> set ''node-exporter''" and h2: "CHR ''_'' \<notin> set ''node-exporter''"
    by simp_all
  have h3: "normalize_name ''app_0'' = ''app_0''"
    by (simp add: normalize_name_def is_word_char_def)
  have h4: "\<not> sublist SEPARATOR_UNIT ''app_0''"
    by (simp add: SEPARATOR_UNIT_def sublist_Cons_right)
  have h5: "\<not> sublist SEPARATOR_UNIT (normalize_name ''app/1'')"
    by (simp add: SEPARATOR_UNIT_def normalize_name_def is_word_char_def sublist_Cons_right)
  have h6: "normalize_name ''app/1'' \<noteq> ''app_0''"
    by (simp add: normalize_name_def is_word_char_def)
  have h7: "get_units ''node-exporter'' [''LCK..other-snap__app_0''] = Inr {}"
    by (simp add: get_units_def from_filename_def str_split_def PREFIX_def SEPARATOR_UNIT_def)
  from is_used_by_other_units_normalized_peers [OF h1 h2 h3 h4 h5 h6 h7] h1 h2 h3 h4 h5 h6 h7
  show ?thesis by blast
qed

section \<open>Properties of flattening and merging\<close>

lemma set_dict_of_keys_aux:
  "fst ` set (foldl (\<lambda>d (k, v). AList.update k v d) acc items) = fst ` set acc \<union> fst ` set items"
proof (induction items arbitrary: acc)
  case Nil
  then show ?case by simp
next
  case (Cons e items)
  obtain k v where e: "e = (k, v)" by (cases e)
  have "fst ` set (AList.update k v acc) = insert k (fst ` set acc)"
    by (simp add: dom_update)
  with Cons.IH [of "AList.update k v acc"] e show ?case by auto
qed

lemma keys_dict_of: "fst ` set (dict_of items) = fst ` set items"
  by (simp add: dict_of_def set_dict_of_keys_aux)




lemma flat_keys_Nil: "flat_keys [] pk = {}"
  by (simp add: flat_keys_def flatten_dict_def dict_of_def)

lemma flat_keys_Cons: "flat_keys (e # rest) pk = entry_keys pk e \<union> flat_keys rest pk"
  by (cases e) (auto simp: flat_keys_def flatten_dict_def keys_dict_of entry_keys_def new_key_def
      image_Un split: pyval.splits)

lemma flat_keys_append: "flat_keys (d @ d') pk = flat_keys d pk \<union> flat_keys d' pk"
  by (induction d) (auto simp: flat_keys_Nil flat_keys_Cons)

lemma update_absent: "map_of r k = None \<Longrightarrow> AList.update k v r = r @ [(k, v)]"
  by (induction r) (auto split: if_splits)

lemma flat_keys_update_absent:
  "map_of r k = None \<Longrightarrow> flat_keys (AList.update k v r) pk = flat_keys r pk \<union> entry_keys pk (k, v)"
  by (simp add: update_absent flat_keys_append flat_keys_Cons flat_keys_Nil)

lemma flat_keys_update_present:
  "map_of r k = Some v \<Longrightarrow> entry_keys pk (k, v') = entry_keys pk (k, v) \<union> X \<Longrightarrow>
   flat_keys (AList.update k v' r) pk = flat_keys r pk \<union> X"
proof (induction r)
  case Nil
  then show ?case by simp
next
  case (Cons e r)
  obtain k0 v0 where e: "e = (k0, v0)" by (cases e)
  show ?case
  proof (cases "k0 = k")
    case True
    with Cons.prems(1) e have v0: "v0 = v" by simp
    have "flat_keys (AList.update k v' (e # r)) pk = entry_keys pk (k, v') \<union> flat_keys r pk"
      using True e by (simp add: flat_keys_Cons)
    moreover have "flat_keys (e # r) pk = entry_keys pk (k, v) \<union> flat_keys r pk"
      using True e v0 by (simp add: flat_keys_Cons)
    ultimately show ?thesis using Cons.prems(2) by blast
  next
    case False
    with Cons.prems(1) e have "map_of r k = Some v" by simp
    from Cons.IH [OF this Cons.prems(2)]
    have ih: "flat_keys (AList.update k v' r) pk = flat_keys r pk \<union> X" .
    have "flat_keys (AList.update k v' (e # r)) pk =
            entry_keys pk e \<union> flat_keys (AList.update k v' r) pk"
      using False e by (simp add: flat_keys_Cons)
    moreover have "flat_keys (e # r) pk = entry_keys pk e \<union> flat_keys r pk"
      by (simp add: flat_keys_Cons)
    ultimately show ?thesis using ih by blast
  qed
qed

lemma merge_dicts_flat_keys:
  "merge_dicts r d path = Inr m \<Longrightarrow> flat_keys m pk = flat_keys r pk \<union> flat_keys d pk"
proof (induction r d path arbitrary: m pk rule: merge_dicts.induct)
  case (1 result path)
  then show ?case by (simp add: flat_keys_Nil)
next
  case (2 result key val rest path)
  let ?cp = "if path \<noteq> [] then path @ ''.'' @ key else key"
  show ?case
  proof (cases "map_of result key")
    case None
    with "2.prems" have "merge_dicts (AList.update key val result) rest path = Inr m" by simp
    from "2.IH"(1) [OF refl None this]
    have "flat_keys m pk = flat_keys (AList.update key val result) pk \<union> flat_keys rest pk" .
    with None show ?thesis by (auto simp: flat_keys_update_absent flat_keys_Cons)
  next
    case (Some cur)
    with "2.prems" obtain d1 d2 merged where
      cur: "cur = Dict d1" and val: "val = Dict d2"
      and in1: "merge_dicts d1 d2 ?cp = Inr merged"
      and in2: "merge_dicts (AList.update key (Dict merged) result) rest path = Inr m"
      by (auto simp: Let_def split: pyval.splits sum.splits)
    have k1: "\<And>pk'. flat_keys merged pk' = flat_keys d1 pk' \<union> flat_keys d2 pk'"
      using "2.IH"(2) [OF refl Some _ cur val in1] by simp
    have k2: "flat_keys m pk = flat_keys (AList.update key (Dict merged) result) pk \<union> flat_keys rest pk"
      using "2.IH"(3) [OF refl Some _ cur val in1 in2] by simp
    have "entry_keys pk (key, Dict merged) = entry_keys pk (key, cur) \<union> entry_keys pk (key, val)"
      using k1 cur val by (simp add: entry_keys_def)
    from flat_keys_update_present [OF Some this] k2 show ?thesis
      by (auto simp: flat_keys_Cons)
  qed
qed

lemma merge_dicts_conflict_paths_aux:
  "wf_dict overlay \<Longrightarrow> \<forall>k \<in> fst ` set overlay. map_of result k = map_of base k \<Longrightarrow>
   (case conflict_paths base overlay path of
      [] \<Rightarrow> \<exists>m. merge_dicts result overlay path = Inr m
    | p # ps \<Rightarrow>
        merge_dicts result overlay path =
          Inl (ConflictValueError (''The configs conflict at key: '' @ p)))"
proof (induction result overlay path arbitrary: base rule: merge_dicts.induct)
  case (1 result path)
  then show ?case by simp
next
  case (2 result key val rest path)
  let ?cp = "if path \<noteq> [] then path @ ''.'' @ key else key"
  from "2.prems"(1) have fresh: "key \<notin> fst ` set rest" and wfr: "wf_dict rest"
    and wfv: "\<And>d. val = Dict d \<Longrightarrow> wf_dict d"
    by auto
  from "2.prems"(2) have agree: "map_of result key = map_of base key"
    and agree_rest: "\<forall>k \<in> fst ` set rest. map_of result k = map_of base k"
    by auto
  have step: "\<And>v. \<forall>k \<in> fst ` set rest. map_of (AList.update key v result) k = map_of base k"
    using agree_rest fresh by (auto simp: update_conv')
  show ?case
  proof (cases "map_of result key")
    case None
    have m: "merge_dicts result ((key, val) # rest) path =
               merge_dicts (AList.update key val result) rest path"
      using None by simp
    have c: "conflict_paths base ((key, val) # rest) path = conflict_paths base rest path"
      using None agree by simp
    from "2.IH"(1) [OF refl None wfr step]
    show ?thesis unfolding m c .
  next
    case (Some cur)
    show ?thesis
    proof (cases "\<exists>d1 d2. cur = Dict d1 \<and> val = Dict d2")
      case True
      then obtain d1 d2 where cur: "cur = Dict d1" and val: "val = Dict d2" by blast
      have inner: "case conflict_paths d1 d2 ?cp of
          [] \<Rightarrow> \<exists>m. merge_dicts d1 d2 ?cp = Inr m
        | p # ps \<Rightarrow> merge_dicts d1 d2 ?cp =
            Inl (ConflictValueError (''The configs conflict at key: '' @ p))"
        using "2.IH"(2) [OF refl Some _ cur val wfv [OF val], of d1] by simp
      show ?thesis
      proof (cases "conflict_paths d1 d2 ?cp")
        case Nil
        with inner obtain merged where m: "merge_dicts d1 d2 ?cp = Inr merged" by auto
        have me: "merge_dicts result ((key, val) # rest) path =
               merge_dicts (AList.update key (Dict merged) result) rest path"
          using Some cur val m by simp
        have c: "conflict_paths base ((key, val) # rest) path = conflict_paths base rest path"
          using Some agree cur val Nil by simp
        from "2.IH"(3) [OF refl Some _ cur val m wfr step]
        have "case conflict_paths base rest path of
            [] \<Rightarrow> \<exists>m. merge_dicts (AList.update key (Dict merged) result) rest path = Inr m
          | p # ps \<Rightarrow> merge_dicts (AList.update key (Dict merged) result) rest path =
              Inl (ConflictValueError (''The configs conflict at key: '' @ p))"
          by simp
        then show ?thesis unfolding me c .
      next
        case (Cons p ps)
        with inner have "merge_dicts d1 d2 ?cp =
            Inl (ConflictValueError (''The configs conflict at key: '' @ p))" by simp
        then have me: "merge_dicts result ((key, val) # rest) path =
            Inl (ConflictValueError (''The configs conflict at key: '' @ p))"
          using Some cur val by simp
        have c: "conflict_paths base ((key, val) # rest) path =
                   p # (ps @ conflict_paths base rest path)"
          using Some agree cur val Cons by simp
        show ?thesis unfolding me c by simp
      qed
    next
      case False
      then have me: "merge_dicts result ((key, val) # rest) path =
            Inl (ConflictValueError (''The configs conflict at key: '' @ ?cp))"
        using Some by (cases cur; cases val) simp_all
      have c: "conflict_paths base ((key, val) # rest) path =
                 ?cp # conflict_paths base rest path"
        using False Some agree by (cases cur; cases val) simp_all
      show ?thesis unfolding me c by simp
    qed
  qed
qed

text \<open>
  Claim C3, as amended. For an overlay with distinct keys at every level,
  \<^verbatim>\<open>merge_dicts\<close> raises exactly when some key is in both dictionaries (at the top, or
  inside values that are dictionaries on both sides) with a value that is not a
  dictionary on at least one side, whether or not the two values are equal; the
  error names the dotted path of the first such key in the overlay's order.
  Otherwise the merge succeeds.
\<close>

theorem merge_dicts_fails_iff_conflict:
  assumes "wf_dict overlay"
  shows "(conflict_paths base overlay path = [] \<longrightarrow>
            (\<exists>m. merge_dicts base overlay path = Inr m)) \<and>
         (\<forall>p ps. conflict_paths base overlay path = p # ps \<longrightarrow>
            merge_dicts base overlay path =
              Inl (ConflictValueError (''The configs conflict at key: '' @ p)))"
  using merge_dicts_conflict_paths_aux [OF assms, of base base path]
  by (cases "conflict_paths base overlay path") simp_all

theorem merge_dicts_fails_iff_conflict_witness:
  "wf_dict [(''web'', Dict [(''port'', Leaf (1922::int))]), (''debug'', Leaf 0)] \<and>
   conflict_paths [(''web'', Dict [(''port'', Leaf (1922::int))])]
      [(''web'', Dict [(''port'', Leaf 1922)]), (''debug'', Leaf 0)] [] = [''web.port''] \<and>
   merge_dicts [(''web'', Dict [(''port'', Leaf (1922::int))])]
      [(''web'', Dict [(''port'', Leaf 1922)]), (''debug'', Leaf 0)] [] =
     Inl (ConflictValueError ''The configs conflict at key: web.port'')"
proof -
  have h: "wf_dict [(''web'', Dict [(''port'', Leaf (1922::int))]), (''debug'', Leaf 0)]"
    by simp
  have c: "conflict_paths [(''web'', Dict [(''port'', Leaf (1922::int))])]
      [(''web'', Dict [(''port'', Leaf 1922)]), (''debug'', Leaf 0)] [] = [''web.port'']"
    by simp
  from merge_dicts_fails_iff_conflict [OF h, of "[(''web'', Dict [(''port'', Leaf 1922)])]" "[]"] c
  have "merge_dicts [(''web'', Dict [(''port'', Leaf (1922::int))])]
      [(''web'', Dict [(''port'', Leaf 1922)]), (''debug'', Leaf 0)] [] =
     Inl (ConflictValueError (''The configs conflict at key: '' @ ''web.port''))"
    by blast
  with h c show ?thesis by simp
qed

text \<open>
  Claim C3 as stated fails for equal leaves: merging \<open>{a: 1}\<close> with \<open>{a: 1}\<close> raises
  the conflict error for \<open>a\<close>.
\<close>

theorem merge_dicts_equal_leaves_counterexample:
  "map_of [(''a'', Leaf (1::int))] ''a'' = Some (Leaf 1) \<and>
   merge_dicts [(''a'', Leaf (1::int))] [(''a'', Leaf 1)] [] =
     Inl (ConflictValueError ''The configs conflict at key: a'')"
  by simp

text \<open>
  Claim C9. Whenever \<^verbatim>\<open>merge_dicts(A, B)\<close> succeeds with result \<open>M\<close>, the keys of
  \<^verbatim>\<open>flatten_dict(M)\<close> are the keys of \<^verbatim>\<open>flatten_dict(A)\<close> together with those of
  \<^verbatim>\<open>flatten_dict(B)\<close> (for every parent key, the empty one of the default call
  included).
\<close>

theorem flatten_merge_keys:
  "merge_dicts a b path = Inr m \<Longrightarrow>
   fst ` set (flatten_dict m pk) = fst ` set (flatten_dict a pk) \<union> fst ` set (flatten_dict b pk)"
  using merge_dicts_flat_keys [of a b path m pk] by (simp add: flat_keys_def)

theorem flatten_merge_keys_witness:
  "merge_dicts [(''a'', Dict [(''x'', Leaf (1::int))]), (''k'', Leaf 0)]
      [(''a'', Dict [(''y'', Leaf 2)]), (''b'', Leaf 3)] [] =
     Inr [(''a'', Dict [(''x'', Leaf 1), (''y'', Leaf 2)]), (''k'', Leaf 0), (''b'', Leaf 3)] \<and>
   fst ` set (flatten_dict
       [(''a'', Dict [(''x'', Leaf (1::int)), (''y'', Leaf 2)]), (''k'', Leaf 0), (''b'', Leaf 3)] []) =
     fst ` set (flatten_dict [(''a'', Dict [(''x'', Leaf (1::int))]), (''k'', Leaf 0)] []) \<union>
     fst ` set (flatten_dict [(''a'', Dict [(''y'', Leaf (2::int))]), (''b'', Leaf 3)] [])"
proof -
  have h: "merge_dicts [(''a'', Dict [(''x'', Leaf (1::int))]), (''k'', Leaf 0)]
      [(''a'', Dict [(''y'', Leaf 2)]), (''b'', Leaf 3)] [] =
     Inr [(''a'', Dict [(''x'', Leaf 1), (''y'', Leaf 2)]), (''k'', Leaf 0), (''b'', Leaf 3)]"
    by simp
  from h flatten_merge_keys [OF h, of "[]"] show ?thesis by (rule conjI)
qed

text \<open>The example of the docstring of \<^verbatim>\<open>flatten_dict\<close>.\<close>

lemma flatten_dict_example:
  "flatten_dict [(''web'', Dict [(''port'', Leaf (1922::int))])] [] = [(''web.port'', 1922)]"
  by (simp add: flatten_dict_def dict_of_def)

section \<open>Properties of the retry wrapper\<close>

lemma retry_loop_spec:
  "attempt \<le> stop \<Longrightarrow>
   \<exists>n. retry_loop stop wait P f attempt sleeps = (f n, n, sleeps @ replicate (n - attempt) wait) \<and>
       attempt \<le> n \<and> n \<le> stop \<and> (\<forall>k. attempt \<le> k \<and> k < n \<longrightarrow> P (f k)) \<and>
       (n < stop \<longrightarrow> \<not> P (f n))"
proof (induction stop wait P f attempt sleeps rule: retry_loop.induct)
  case (1 stop wait P f attempt sleeps)
  show ?case
  proof (cases "P (f attempt) \<and> attempt < stop")
    case True
    then have "Suc attempt \<le> stop" by simp
    from "1.IH" [OF refl True this] obtain n where
      n: "retry_loop stop wait P f (Suc attempt) (sleeps @ [wait]) =
            (f n, n, (sleeps @ [wait]) @ replicate (n - Suc attempt) wait)"
        "Suc attempt \<le> n" "n \<le> stop" "\<forall>k. Suc attempt \<le> k \<and> k < n \<longrightarrow> P (f k)"
        "n < stop \<longrightarrow> \<not> P (f n)"
      by blast
    have r: "[wait] @ replicate (n - Suc attempt) wait = replicate (n - attempt) wait"
      using n(2) by (cases "n - attempt") (simp_all add: Suc_diff_le)
    have "retry_loop stop wait P f attempt sleeps =
            (f n, n, sleeps @ replicate (n - attempt) wait)"
      using True n(1) r by (subst retry_loop.simps) simp
    moreover have "\<forall>k. attempt \<le> k \<and> k < n \<longrightarrow> P (f k)"
    proof (intro allI impI)
      fix k assume k: "attempt \<le> k \<and> k < n"
      show "P (f k)"
      proof (cases "k = attempt")
        case True
        with \<open>P (f attempt) \<and> attempt < stop\<close> show ?thesis by simp
      next
        case False
        with k n(4) show ?thesis by simp
      qed
    qed
    ultimately show ?thesis using n(2,3,5) by (intro exI [of _ n]) simp
  next
    case False
    then have "retry_loop stop wait P f attempt sleeps = (f attempt, attempt, sleeps)"
      by (subst retry_loop.simps) auto
    with False "1.prems" show ?thesis by (intro exI [of _ attempt]) auto
  qed
qed

lemma retry_spec:
  "1 \<le> stop \<Longrightarrow>
   \<exists>n. retry stop wait P f = (f n, n, replicate (n - 1) wait) \<and>
       1 \<le> n \<and> n \<le> stop \<and> (\<forall>k. 1 \<le> k \<and> k < n \<longrightarrow> P (f k)) \<and> (n < stop \<longrightarrow> \<not> P (f n))"
  using retry_loop_spec [of 1 stop wait P f "[]"] by (simp add: retry_def)

lemma retry_exhausted:
  assumes "\<forall>k. 1 \<le> k \<and> k \<le> stop \<longrightarrow> P (f k)" and "1 \<le> stop"
  shows "retry stop wait P f = (f stop, stop, replicate (stop - 1) wait)"
proof -
  from retry_spec [OF assms(2), of wait P f] obtain n where
    n: "retry stop wait P f = (f n, n, replicate (n - 1) wait)" "1 \<le> n" "n \<le> stop"
       "n < stop \<longrightarrow> \<not> P (f n)" by blast
  with assms(1) have "n = stop" by (metis le_neq_implies_less)
  with n(1) show ?thesis by simp
qed

text \<open>
  Claim C8. A probe in boolean mode (the service check of the snap, the check of
  the metrics endpoint) makes at most five attempts, two seconds apart, goes on
  only while the attempt returned \<^verbatim>\<open>False\<close>, and hands back the outcome of its last
  attempt; when all five attempts return \<^verbatim>\<open>False\<close> it returns \<^verbatim>\<open>False\<close> and raises
  nothing. The probe in exception mode (the secret) makes three attempts, five
  seconds apart, and when all three raise \<^verbatim>\<open>SecretAccessError\<close> it raises the
  exception of the third.
\<close>

theorem retry_bounded_probes:
  "(\<exists>b n. check_metrics_endpoint responses = (Inr b, n, replicate (n - 1) 2) \<and>
        1 \<le> n \<and> n \<le> 5 \<and> metrics_attempt (responses n) = Inr b \<and>
        (\<forall>k. 1 \<le> k \<and> k < n \<longrightarrow> metrics_attempt (responses k) = Inr False) \<and>
        (n < 5 \<longrightarrow> b)) \<and>
   (\<exists>n. check services_at = (check_attempt (services_at n), n, replicate (n - 1) 2) \<and>
        1 \<le> n \<and> n \<le> 5 \<and>
        (\<forall>k. 1 \<le> k \<and> k < n \<longrightarrow> check_attempt (services_at k) = Inr False) \<and>
        (n < 5 \<longrightarrow> check_attempt (services_at n) \<noteq> Inr False)) \<and>
   ((\<forall>k. 1 \<le> k \<and> k \<le> 5 \<longrightarrow> metrics_attempt (responses k) = Inr False) \<longrightarrow>
      check_metrics_endpoint responses = (Inr False, 5, [2, 2, 2, 2])) \<and>
   ((\<forall>k. 1 \<le> k \<and> k \<le> 5 \<longrightarrow> check_attempt (services_at k) = Inr False) \<longrightarrow>
      check services_at = (Inr False, 5, [2, 2, 2, 2])) \<and>
   ((\<forall>k. 1 \<le> k \<and> k \<le> 3 \<longrightarrow> (\<exists>msg. decode_secret_at k = Inl (SecretAccessError msg))) \<longrightarrow>
      decode_secret_with_retry decode_secret_at = (decode_secret_at 3, 3, [5, 5]))"
proof -
  let ?m = "\<lambda>k. metrics_attempt (responses k)"
  let ?c = "\<lambda>k. check_attempt (services_at k)"
  have five: "replicate (5 - 1) (2::nat) = [2, 2, 2, 2]" and three: "replicate (3 - 1) (5::nat) = [5, 5]"
    by (simp_all add: numeral_eq_Suc)
  from retry_spec [of 5 2 retry_if_result_is_False ?m] obtain n where
    n: "check_metrics_endpoint responses = (?m n, n, replicate (n - 1) 2)" "1 \<le> n" "n \<le> 5"
       "\<forall>k. 1 \<le> k \<and> k < n \<longrightarrow> ?m k = Inr False" "n < 5 \<longrightarrow> ?m n \<noteq> Inr False"
    by (auto simp: check_metrics_endpoint_def retry_if_result_is_False_def)
  obtain b where b: "?m n = Inr b" by (simp add: metrics_attempt_def)
  have p1: "\<exists>b n. check_metrics_endpoint responses = (Inr b, n, replicate (n - 1) 2) \<and>
        1 \<le> n \<and> n \<le> 5 \<and> metrics_attempt (responses n) = Inr b \<and>
        (\<forall>k. 1 \<le> k \<and> k < n \<longrightarrow> metrics_attempt (responses k) = Inr False) \<and>
        (n < 5 \<longrightarrow> b)"
    using n b by (intro exI [of _ b] exI [of _ n]) auto
  have p2: "\<exists>n. check services_at = (check_attempt (services_at n), n, replicate (n - 1) 2) \<and>
        1 \<le> n \<and> n \<le> 5 \<and>
        (\<forall>k. 1 \<le> k \<and> k < n \<longrightarrow> check_attempt (services_at k) = Inr False) \<and>
        (n < 5 \<longrightarrow> check_attempt (services_at n) \<noteq> Inr False)"
    using retry_spec [of 5 2 retry_if_result_is_False ?c]
    by (simp add: check_def retry_if_result_is_False_def)
  have p3: "(\<forall>k. 1 \<le> k \<and> k \<le> 5 \<longrightarrow> ?m k = Inr False) \<longrightarrow>
      check_metrics_endpoint responses = (Inr False, 5, [2, 2, 2, 2])"
  proof
    assume a: "\<forall>k. 1 \<le> k \<and> k \<le> 5 \<longrightarrow> ?m k = Inr False"
    then have "\<forall>k. 1 \<le> k \<and> k \<le> 5 \<longrightarrow> retry_if_result_is_False (?m k)"
      by (simp add: retry_if_result_is_False_def)
    from retry_exhausted [where stop = 5 and P = retry_if_result_is_False and f = ?m and wait = 2]
      this a five
    show "check_metrics_endpoint responses = (Inr False, 5, [2, 2, 2, 2])"
      by (simp add: check_metrics_endpoint_def)
  qed
  have p4: "(\<forall>k. 1 \<le> k \<and> k \<le> 5 \<longrightarrow> ?c k = Inr False) \<longrightarrow>
      check services_at = (Inr False, 5, [2, 2, 2, 2])"
  proof
    assume a: "\<forall>k. 1 \<le> k \<and> k \<le> 5 \<longrightarrow> ?c k = Inr False"
    then have "\<forall>k. 1 \<le> k \<and> k \<le> 5 \<longrightarrow> retry_if_result_is_False (?c k)"
      by (simp add: retry_if_result_is_False_def)
    from retry_exhausted [where stop = 5 and P = retry_if_result_is_False and f = ?c and wait = 2]
      this a five
    show "check services_at = (Inr False, 5, [2, 2, 2, 2])"
      by (simp add: check_def)
  qed
  have p5: "(\<forall>k. 1 \<le> k \<and> k \<le> 3 \<longrightarrow> (\<exists>msg. decode_secret_at k = Inl (SecretAccessError msg))) \<longrightarrow>
      decode_secret_with_retry decode_secret_at = (decode_secret_at 3, 3, [5, 5])"
  proof
    assume a: "\<forall>k. 1 \<le> k \<and> k \<le> 3 \<longrightarrow> (\<exists>msg. decode_secret_at k = Inl (SecretAccessError msg))"
    have "\<forall>k. 1 \<le> k \<and> k \<le> 3 \<longrightarrow> retry_if_SecretAccessError (decode_secret_at k)"
    proof (intro allI impI)
      fix k :: nat assume "1 \<le> k \<and> k \<le> 3"
      with a obtain msg where "decode_secret_at k = Inl (SecretAccessError msg)" by blast
      then show "retry_if_SecretAccessError (decode_secret_at k)" by simp
    qed
    from retry_exhausted [where stop = 3 and P = retry_if_SecretAccessError
        and f = decode_secret_at and wait = 5] this three
    show "decode_secret_with_retry decode_secret_at = (decode_secret_at 3, 3, [5, 5])"
      by (simp add: decode_secret_with_retry_def)
  qed
  from p1 p2 p3 p4 p5 show ?thesis by blast
qed

theorem retry_bounded_probes_witness:
  "check_metrics_endpoint (\<lambda>k. RequestException) = (Inr False, 5, [2, 2, 2, 2]) \<and>
   check (\<lambda>k. Inr [(''node-exporter'', Some False)]) = (Inr False, 5, [2, 2, 2, 2]) \<and>
   decode_secret_with_retry
       (\<lambda>k. if k = 3 then Inl (SecretAccessError ''third'') else Inl (SecretAccessError ''earlier'')
          :: error + unit) =
     (Inl (SecretAccessError ''third''), 3, [5, 5])"
proof -
  let ?r = "\<lambda>k::nat. RequestException"
  let ?s = "\<lambda>k::nat. Inr [(''node-exporter'', Some False)] :: error + (string \<times> bool option) list"
  let ?d = "\<lambda>k::nat. if k = 3 then Inl (SecretAccessError ''third'')
                      else Inl (SecretAccessError ''earlier'') :: error + unit"
  have h1: "\<forall>k. 1 \<le> k \<and> k \<le> 5 \<longrightarrow> metrics_attempt (?r k) = Inr False"
    by (simp add: metrics_attempt_def)
  have h2: "\<forall>k. 1 \<le> k \<and> k \<le> 5 \<longrightarrow> check_attempt (?s k) = Inr False"
    by (simp add: check_attempt_def services_active_def)
  have h3: "\<forall>k. 1 \<le> k \<and> k \<le> 3 \<longrightarrow> (\<exists>msg. ?d k = Inl (SecretAccessError msg))"
    by simp
  from retry_bounded_probes [of ?r ?s ?d] h1 h2 h3
  have "check_metrics_endpoint ?r = (Inr False, 5, [2, 2, 2, 2])"
    and "check ?s = (Inr False, 5, [2, 2, 2, 2])"
    and "decode_secret_with_retry ?d = (?d 3, 3, [5, 5])"
    by blast+
  then show ?thesis by simp
qed

section \<open>Properties of the reconciliation\<close>

lemmas registry_defs = is_used_by_other_units_def register_def unregister_def filename_def
  normalize_name_def is_word_char_def get_units_def from_filename_def str_split_def
  PREFIX_def SEPARATOR_UNIT_def

lemmas charm_defs = reconcile_def reconcile_steps_def and_then_def helper_validate_config_def
  resolve_snap_def merge_secret_def helper_remove_def helper_install_def helper_check_status_def
  helper_configure_def call_env_def log_and_set_status_def snap_client_def check_required_fields_def
  REQUIRED_FIELDS_def getattr_is_None_def replace_underscores_def is_CharmError_def str_error_def
  str_opt_def default_config_def obliging_env_def fresh_charm_def remove_def call_unguarded_def
  configure_snap_def


lemma helper_remove_registered:
  assumes st: "installed_snap_name s = Some A"
    and own: "filename \<lparr>unit_name = unit s, snap_name = A\<rparr> \<in> set (LOCK_DIR s)"
    and used: "is_used_by_other_units (unit s) A
                 (removeAll (filename \<lparr>unit_name = unit s, snap_name = A\<rparr>) (LOCK_DIR s)) = Inr used"
  shows "helper_remove e s =
     (if used \<or> answer e (calls s @ [UnregisterCall A]) (SnapRemove A) then Inr ()
      else Inl (CharmUninstallError
                 (''Failed to uninstall snap: '' @ A @ ''. See juju debug-log for details.'')),
      s\<lparr>LOCK_DIR := removeAll (filename \<lparr>unit_name = unit s, snap_name = A\<rparr>) (LOCK_DIR s),
        calls := calls s @ [UnregisterCall A] @ (if used then [] else [SnapRemove A]),
        installed_snap_name :=
          (if used \<or> answer e (calls s @ [UnregisterCall A]) (SnapRemove A) then None else Some A)\<rparr>)"
proof -
  let ?fn = "filename \<lparr>unit_name = unit s, snap_name = A\<rparr>"
  have u: "unregister (unit s) A (LOCK_DIR s) = (Inr (), removeAll ?fn (LOCK_DIR s))"
    using own by (simp add: unregister_def)
  show ?thesis
    unfolding helper_remove_def using st u used
    by (simp add: call_env_def)
qed

text \<open>
  Claim C4, as amended. On the removal path, with an identity stored and its
  registration file in the lock directory, the handler unregisters the identity,
  issues the removal of the snap exactly when \<^verbatim>\<open>is_used_by_other_units\<close> answers
  that no other unit holds it, and clears the stored identity when the removal
  was skipped or was issued and succeeded. When the issued removal fails, the
  handler raises \<^verbatim>\<open>CharmUninstallError\<close> and the stored identity stays.
\<close>

theorem remove_clears_unless_removal_fails:
  assumes st: "installed_snap_name s = Some A"
    and own: "filename \<lparr>unit_name = unit s, snap_name = A\<rparr> \<in> set (LOCK_DIR s)"
    and used: "is_used_by_other_units (unit s) A
                 (removeAll (filename \<lparr>unit_name = unit s, snap_name = A\<rparr>) (LOCK_DIR s)) = Inr used"
  shows "\<exists>s'. remove e s =
           (if used \<or> answer e (calls s @ [UnregisterCall A]) (SnapRemove A) then Inr ()
            else Inl (CharmUninstallError
                   (''Failed to uninstall snap: '' @ A @ ''. See juju debug-log for details.'')),
            s') \<and>
          LOCK_DIR s' = removeAll (filename \<lparr>unit_name = unit s, snap_name = A\<rparr>) (LOCK_DIR s) \<and>
          calls s' = calls s @ [UnregisterCall A] @ (if used then [] else [SnapRemove A]) \<and>
          installed_snap_name s' =
            (if used \<or> answer e (calls s @ [UnregisterCall A]) (SnapRemove A) then None else Some A)"
proof -
  let ?s0 = "(log_and_set_status (MaintenanceStatus ''Removing charm resources'') s)\<lparr>rules_dir := None\<rparr>"
  have eqs: "installed_snap_name ?s0 = Some A" "unit ?s0 = unit s" "LOCK_DIR ?s0 = LOCK_DIR s"
    "calls ?s0 = calls s"
    using st by (simp_all add: log_and_set_status_def)
  have "installed_snap_name ?s0 = Some A"
    and "filename \<lparr>unit_name = unit ?s0, snap_name = A\<rparr> \<in> set (LOCK_DIR ?s0)"
    and "is_used_by_other_units (unit ?s0) A
           (removeAll (filename \<lparr>unit_name = unit ?s0, snap_name = A\<rparr>) (LOCK_DIR ?s0)) = Inr used"
    using own used eqs by simp_all
  from helper_remove_registered [OF this, of e] show ?thesis
    unfolding remove_def eqs by simp
qed

lemma extends_refl: "extends_without_removal s s"
  by (simp add: extends_without_removal_def no_removal_def)

lemma extends_trans:
  "extends_without_removal s s' \<Longrightarrow> extends_without_removal s' s'' \<Longrightarrow>
   extends_without_removal s s''"
  by (auto simp: extends_without_removal_def no_removal_def)

lemma extends_status_left:
  "extends_without_removal (log_and_set_status st s) s' = extends_without_removal s s'"
  by (simp add: extends_without_removal_def log_and_set_status_def)

lemma extends_status_right:
  "extends_without_removal s (log_and_set_status st s') = extends_without_removal s s'"
  by (simp add: extends_without_removal_def log_and_set_status_def)

lemma extends_call:
  "\<forall>n. c \<noteq> SnapRemove n \<Longrightarrow> extends_without_removal s (snd (call_env e c s))"
  by (auto simp: extends_without_removal_def no_removal_def call_env_def)

lemma helper_check_status_frame:
  assumes "helper_check_status e s = (r, s')"
  shows "extends_without_removal s s' \<and> caught_or_escaped e r"
  using assms
  by (auto simp: helper_check_status_def call_env_def call_unguarded_def Let_def
      extends_without_removal_def no_removal_def caught_or_escaped_def is_CharmError_def
      split: option.splits if_splits prod.splits sum.splits)

lemma configure_snap_frame:
  assumes "configure_snap e s = (r, s')"
  shows "extends_without_removal s s' \<and> caught_or_escaped e r"
  using assms
  by (auto simp: configure_snap_def call_env_def Let_def
      extends_without_removal_def no_removal_def caught_or_escaped_def is_CharmError_def
      split: option.splits if_splits prod.splits)

lemma call_unguarded_frame:
  assumes "call_unguarded e c s = (r, s')" and "\<forall>n. c \<noteq> SnapRemove n"
  shows "extends_without_removal s s' \<and> (\<forall>err. r = Inl err \<longrightarrow> (\<exists>h c. raised e h c = Some err))"
  using assms
  by (auto simp: call_unguarded_def extends_without_removal_def no_removal_def
      split: option.splits)

lemma helper_configure_frame:
  assumes "helper_configure e s = (r, s')"
  shows "extends_without_removal s s' \<and> caught_or_escaped e r"
proof -
  obtain r1 s1 where c1: "call_unguarded e SetWorkloadVersion s = (r1, s1)"
    by (cases "call_unguarded e SetWorkloadVersion s")
  from call_unguarded_frame [OF c1] have f1: "extends_without_removal s s1"
    and e1: "\<forall>err. r1 = Inl err \<longrightarrow> (\<exists>h c. raised e h c = Some err)" by simp_all
  show ?thesis
  proof (cases r1)
    case (Inl err)
    with assms c1 have "r = Inl err" "s' = s1" by (simp_all add: helper_configure_def)
    with f1 e1 Inl show ?thesis by (simp add: caught_or_escaped_def)
  next
    case (Inr u1)
    obtain r2 s2 where c2: "call_unguarded e ConfigureAlerts s1 = (r2, s2)"
      by (cases "call_unguarded e ConfigureAlerts s1")
    from call_unguarded_frame [OF c2] have f2: "extends_without_removal s1 s2"
      and e2: "\<forall>err. r2 = Inl err \<longrightarrow> (\<exists>h c. raised e h c = Some err)" by simp_all
    from f1 f2 have f12: "extends_without_removal s s2" by (rule extends_trans)
    show ?thesis
    proof (cases r2)
      case (Inl err)
      with assms c1 c2 \<open>r1 = Inr u1\<close> have "r = Inl err" "s' = s2"
        by (simp_all add: helper_configure_def)
      with f12 e2 Inl show ?thesis by (simp add: caught_or_escaped_def)
    next
      case (Inr u2)
      with assms c1 c2 \<open>r1 = Inr u1\<close> have "configure_snap e s2 = (r, s')"
        by (simp add: helper_configure_def)
      from configure_snap_frame [OF this] f12 show ?thesis
        by (blast intro: extends_trans)
    qed
  qed
qed

lemma reconcile_tail:
  assumes "caught_or_escaped e r"
  shows "\<exists>r' s'. (case and_then (r, s1) (\<lambda>s.
             and_then (helper_check_status e s) (\<lambda>s.
               (Inr (), log_and_set_status ActiveStatus s))) of
           (Inl ce, s') \<Rightarrow>
             if is_CharmError ce
             then (Inr (), log_and_set_status (BlockedStatus (str_error ce)) s')
             else (Inl ce, s')
         | (Inr u, s') \<Rightarrow> (Inr u, s')) = (r', s') \<and> extends_without_removal s1 s' \<and>
         (r' = Inr () \<or> (\<exists>err h c. r' = Inl err \<and> raised e h c = Some err))"
proof (cases r)
  case (Inl err)
  with assms show ?thesis
    by (auto simp: and_then_def extends_status_right extends_refl caught_or_escaped_def)
next
  case (Inr u)
  obtain r6 s6 where c: "helper_check_status e s1 = (r6, s6)" by (cases "helper_check_status e s1")
  from helper_check_status_frame [OF c] have f: "extends_without_removal s1 s6"
    and k: "caught_or_escaped e r6" by simp_all
  show ?thesis
  proof (cases r6)
    case (Inl err)
    with Inr c f k show ?thesis
      by (auto simp: and_then_def extends_status_right caught_or_escaped_def)
  next
    case (Inr u')
    with \<open>r = Inr u\<close> c f show ?thesis
      by (simp add: and_then_def extends_status_right)
  qed
qed

lemma other_holder_counts:
  assumes A_ok: "CHR ''.'' \<notin> set A" "CHR ''_'' \<notin> set A"
    and dir: "canonical_dir d"
    and other: "filename \<lparr>unit_name = other, snap_name = A\<rparr> \<in> set d"
      "filename \<lparr>unit_name = other, snap_name = A\<rparr> \<noteq> filename \<lparr>unit_name = u, snap_name = A\<rparr>"
      "\<not> sublist SEPARATOR_UNIT (normalize_name other)"
  shows "is_used_by_other_units u A (removeAll (filename \<lparr>unit_name = u, snap_name = A\<rparr>) d) = Inr True"
proof -
  let ?fu = "filename \<lparr>unit_name = u, snap_name = A\<rparr>"
  let ?fo = "filename \<lparr>unit_name = other, snap_name = A\<rparr>"
  let ?d' = "removeAll ?fu d"
  have all: "\<forall>f \<in> set ?d'. \<exists>r. from_filename f = Inr r"
    using canonical_dir_parses [OF dir] by auto
  have parse: "from_filename ?fo = Inr \<lparr>unit_name = normalize_name other, snap_name = A\<rparr>"
    by (rule from_filename_filename [OF A_ok other(3)])
  have "?fo \<in> set ?d'" using other(1,2) by simp
  with parse have h: "normalize_name other \<in> holders A ?d'"
    unfolding holders_iff by force
  have "normalize_name other \<noteq> u"
  proof
    assume eq: "normalize_name other = u"
    then have "normalize_name u = normalize_name other"
      using normalize_name_idem [of other] by simp
    then have "?fu = ?fo" by (simp add: filename_def)
    with other(2) show False by simp
  qed
  with h have "\<exists>x \<in> holders A ?d'. x \<noteq> u" by blast
  with all show ?thesis by (simp add: is_used_by_other_units_def get_units_eq)
qed

text \<open>
  Claim C2. The stored identity is \<open>A\<close>, the validated configuration names the
  snap \<open>B\<close> (with its revision), this unit and another unit hold records for \<open>A\<close>
  in a canonical lock directory, and the installation of \<open>B\<close> succeeds. Then one
  run of \<^verbatim>\<open>reconcile\<close>, for any event, unregisters \<open>A\<close>, registers and installs \<open>B\<close> and
  starts it, never calls the removal of a snap, and ends with the stored
  identity \<open>B\<close>; the handler returns unless an exception escapes from one of the
  collaborator calls it makes outside any \<^verbatim>\<open>try\<close>.
\<close>

theorem reconcile_identity_change_shared_snap:
  assumes val: "helper_validate_config e s = (Inr (), s\<lparr>conf := c\<rparr>)"
    and new: "conf_snap_name c = Some B" "B \<noteq> []" "conf_snap_revision c = Some revno"
    and old: "installed_snap_name s = Some A" "A \<noteq> B"
    and A_ok: "CHR ''.'' \<notin> set A" "CHR ''_'' \<notin> set A"
    and dir: "canonical_dir (LOCK_DIR s)"
    and own: "filename \<lparr>unit_name = unit s, snap_name = A\<rparr> \<in> set (LOCK_DIR s)"
    and other: "filename \<lparr>unit_name = other, snap_name = A\<rparr> \<in> set (LOCK_DIR s)"
      "filename \<lparr>unit_name = other, snap_name = A\<rparr> \<noteq> filename \<lparr>unit_name = unit s, snap_name = A\<rparr>"
      "\<not> sublist SEPARATOR_UNIT (normalize_name other)"
    and inst: "\<forall>h. answer e h (SnapInstall B revno (conf_snap_classic c))"
  shows "\<exists>r s' rest. reconcile e ev s = (r, s') \<and> installed_snap_name s' = Some B \<and>
           calls s' = calls s @ [UnregisterCall A, RegisterCall B,
                                 SnapInstall B revno (conf_snap_classic c), SnapEnableAndStart B] @ rest \<and>
           (\<forall>n. SnapRemove n \<notin> set rest) \<and>
           (r = Inr () \<or> (\<exists>err h c. r = Inl err \<and> raised e h c = Some err))"
proof -
  let ?fu = "filename \<lparr>unit_name = unit s, snap_name = A\<rparr>"
  let ?sa = "log_and_set_status (MaintenanceStatus ''Installing charm resources'') (s\<lparr>conf := c\<rparr>)"
  have sa: "installed_snap_name ?sa = Some A" "unit ?sa = unit s" "LOCK_DIR ?sa = LOCK_DIR s"
    "calls ?sa = calls s" "conf ?sa = c"
    using old(1) by (simp_all add: log_and_set_status_def)
  have used: "is_used_by_other_units (unit s) A (removeAll ?fu (LOCK_DIR s)) = Inr True"
    by (rule other_holder_counts [OF A_ok dir other])
  let ?sb = "?sa\<lparr>LOCK_DIR := removeAll ?fu (LOCK_DIR s), calls := calls s @ [UnregisterCall A],
                 installed_snap_name := None\<rparr>"
  have "installed_snap_name ?sa = Some A"
    and "filename \<lparr>unit_name = unit ?sa, snap_name = A\<rparr> \<in> set (LOCK_DIR ?sa)"
    and "is_used_by_other_units (unit ?sa) A
           (removeAll (filename \<lparr>unit_name = unit ?sa, snap_name = A\<rparr>) (LOCK_DIR ?sa)) = Inr True"
    using own used sa by simp_all
  from helper_remove_registered [OF this, of e]
  have rem: "helper_remove e ?sa = (Inr (), ?sb)"
    unfolding sa by simp
  obtain r4 s4 where ins: "helper_install e ?sb = (r4, s4)" by (cases "helper_install e ?sb")
  let ?h3 = "calls s @ [UnregisterCall A, RegisterCall B]"
  let ?h4 = "calls s @ [UnregisterCall A, RegisterCall B, SnapInstall B revno (conf_snap_classic c)]"
  from inst have inst3: "answer e ?h3 (SnapInstall B revno (conf_snap_classic c))" by blast
  have ins_eq: "helper_install e ?sb =
      (if answer e ?h4 (SnapEnableAndStart B) then Inr ()
       else Inl (CharmInstallError (''Failed to start snap services for: '' @ B @
                             ''. See juju debug-log for details.'')),
       ?sb\<lparr>LOCK_DIR := register (unit s) B (removeAll ?fu (LOCK_DIR s)),
            calls := ?h4 @ [SnapEnableAndStart B],
            installed_snap_name := Some B\<rparr>)"
    using inst3 new
    by (simp add: helper_install_def snap_client_def call_env_def Let_def log_and_set_status_def
        str_opt_def)
  have i4: "installed_snap_name s4 = Some B \<and>
            calls s4 = calls s @ [UnregisterCall A, RegisterCall B,
                                 SnapInstall B revno (conf_snap_classic c), SnapEnableAndStart B] \<and>
            caught_or_escaped e r4"
    using ins unfolding ins_eq
    by (cases "answer e ?h4 (SnapEnableAndStart B)")
       (auto simp: caught_or_escaped_def is_CharmError_def)
  let ?conf_step = "\<lambda>s. if ev = ConfigChangedEvent
       then helper_configure e
              (log_and_set_status (MaintenanceStatus ''Updating configuration'') s)
       else (Inr (), s)"
  obtain r5 s5 where st5: "and_then (r4, s4) ?conf_step = (r5, s5)"
    by (cases "and_then (r4, s4) ?conf_step")
  have f5: "extends_without_removal s4 s5 \<and> caught_or_escaped e r5"
  proof (cases r4)
    case (Inl err)
    with st5 i4 show ?thesis by (auto simp: and_then_def extends_refl)
  next
    case (Inr u)
    show ?thesis
    proof (cases "ev = ConfigChangedEvent")
      case True
      with Inr st5 have "helper_configure e
              (log_and_set_status (MaintenanceStatus ''Updating configuration'') s4) = (r5, s5)"
        by (simp add: and_then_def)
      from helper_configure_frame [OF this] show ?thesis
        by (simp add: extends_status_left)
    next
      case False
      with Inr st5 show ?thesis
        by (auto simp: and_then_def extends_refl caught_or_escaped_def)
    qed
  qed
  have ne: "installed_snap_name (s\<lparr>conf := c\<rparr>) \<noteq> conf_snap_name (conf (s\<lparr>conf := c\<rparr>))"
    using old new by simp
  have steps: "reconcile_steps e ev s = (r5, s5)"
    unfolding reconcile_steps_def val
    using ne rem ins st5 by (simp add: and_then_def)
  from f5 have k5: "caught_or_escaped e r5" by simp
  from reconcile_tail [OF k5, of s5] obtain r' s' where
    fin: "reconcile e ev s = (r', s')" and f6: "extends_without_removal s5 s'"
    and k6: "r' = Inr () \<or> (\<exists>err h c. r' = Inl err \<and> raised e h c = Some err)"
    unfolding reconcile_def steps by blast
  from f5 f6 have "extends_without_removal s4 s'" using extends_trans by blast
  then obtain rest where "installed_snap_name s' = installed_snap_name s4"
    "calls s' = calls s4 @ rest" "\<forall>n. SnapRemove n \<notin> set rest"
    unfolding extends_without_removal_def no_removal_def by blast
  with i4 fin k6 show ?thesis by simp
qed

lemma missing_fields_loop_eq:
  "missing_fields_loop c fs acc = acc @ map replace_underscores (filter (getattr_is_None c) fs)"
  by (induction fs arbitrary: acc) simp_all

lemma check_required_fields_eq:
  "check_required_fields c =
     (if filter (getattr_is_None c) REQUIRED_FIELDS \<noteq> []
      then Some (map replace_underscores (filter (getattr_is_None c) REQUIRED_FIELDS)) else None)"
  by (simp add: check_required_fields_def missing_fields_loop_eq)

text \<open>
  Claim C6, as amended. The required fields are checked at the start of the
  status check, which runs after the validation, the removal and installation,
  and the configuration of the same invocation. When those steps end without an
  exception and a required field is missing, the invocation ends blocked with
  the report that lists every missing field, in the order of \<open>REQUIRED_FIELDS\<close>,
  and the status check calls no collaborator.
\<close>

theorem missing_fields_blocked_after_steps:
  assumes "reconcile_steps e ev s = (Inr (), s1)"
    and "filter (getattr_is_None (conf s1)) REQUIRED_FIELDS \<noteq> []"
  shows "reconcile e ev s =
     (Inr (), s1\<lparr>unit_status := BlockedStatus
        (''Missing required configuration fields: '' @
         join '', '' (map replace_underscores
                       (filter (getattr_is_None (conf s1)) REQUIRED_FIELDS)))\<rparr>)"
proof -
  have "helper_check_status e s1 =
     (Inl (CharmStatusError
        (''Missing required configuration fields: '' @
         join '', '' (map replace_underscores
                       (filter (getattr_is_None (conf s1)) REQUIRED_FIELDS)))), s1)"
    using assms(2) by (simp add: helper_check_status_def check_required_fields_eq)
  then show ?thesis
    unfolding reconcile_def assms(1)
    by (simp add: and_then_def is_CharmError_def str_error_def log_and_set_status_def)
qed

theorem missing_fields_blocked_after_steps_witness:
  "reconcile (obliging_env (default_config\<lparr>conf_snap_name := Some ''node-exporter'',
                 conf_snap_channel := Some ''latest/stable''\<rparr> :: unit CharmConfig))
       UpdateStatusEvent (fresh_charm ''app/0'' None []) =
   (Inr (),
    \<lparr>conf = default_config\<lparr>conf_snap_name := Some ''node-exporter'',
              conf_snap_channel := Some ''latest/stable'', conf_snap_revision := Some 7\<rparr>,
     installed_snap_name = Some ''node-exporter'',
     unit_status = BlockedStatus ''Missing required configuration fields: exporter-port'',
     unit = ''app/0'', LOCK_DIR = [''LCK..node-exporter__app_0''], rules_dir = None,
     calls = [RegisterCall ''node-exporter'', SnapInstall ''node-exporter'' 7 False,
              SnapEnableAndStart ''node-exporter'']\<rparr>)"
proof -
  let ?e = "obliging_env (default_config\<lparr>conf_snap_name := Some ''node-exporter'',
                 conf_snap_channel := Some ''latest/stable''\<rparr> :: unit CharmConfig)"
  let ?s1 = "\<lparr>conf = default_config\<lparr>conf_snap_name := Some ''node-exporter'',
              conf_snap_channel := Some ''latest/stable'', conf_snap_revision := Some 7\<rparr>,
     installed_snap_name = Some ''node-exporter'',
     unit_status = MaintenanceStatus ''Installing charm resources'',
     unit = ''app/0'', LOCK_DIR = [''LCK..node-exporter__app_0''], rules_dir = None,
     calls = [RegisterCall ''node-exporter'', SnapInstall ''node-exporter'' 7 False,
              SnapEnableAndStart ''node-exporter'']\<rparr> :: unit charm"
  have h1: "reconcile_steps ?e UpdateStatusEvent (fresh_charm ''app/0'' None []) = (Inr (), ?s1)"
    by (simp add: reconcile_steps_def and_then_def helper_validate_config_def resolve_snap_def
        merge_secret_def helper_remove_def helper_install_def call_env_def log_and_set_status_def
        snap_client_def str_opt_def default_config_def obliging_env_def fresh_charm_def
        register_def filename_def normalize_name_def is_word_char_def PREFIX_def SEPARATOR_UNIT_def)
  have h2: "filter (getattr_is_None (conf ?s1)) REQUIRED_FIELDS \<noteq> []"
    by (simp add: getattr_is_None_def REQUIRED_FIELDS_def default_config_def)
  from missing_fields_blocked_after_steps [OF h1 h2]
  show ?thesis
    by (simp add: getattr_is_None_def REQUIRED_FIELDS_def default_config_def replace_underscores_def)
qed

text \<open>
  Claim C6 as stated fails on the order: with both required fields missing and
  an identity stored, the invocation unregisters and removes the old snap first
  and reports the missing fields afterwards.
\<close>

theorem missing_fields_checked_after_removal_counterexample:
  "check_required_fields (default_config\<lparr>conf_snap_channel := Some ''latest/stable''\<rparr>
       :: unit CharmConfig) = Some [''snap-name'', ''exporter-port''] \<and>
   reconcile (obliging_env (default_config\<lparr>conf_snap_channel := Some ''latest/stable''\<rparr>
       :: unit CharmConfig)) InstallEvent
     (fresh_charm ''app/0'' (Some ''old-snap'') [''LCK..old-snap__app_0'']) =
   (Inr (), (fresh_charm ''app/0'' None [])
      \<lparr>conf := default_config\<lparr>conf_snap_channel := Some ''latest/stable''\<rparr>,
       unit_status := BlockedStatus ''Missing required configuration fields: snap-name, exporter-port'',
       calls := [UnregisterCall ''old-snap'', SnapRemove ''old-snap'']\<rparr>)"
  by (simp add: charm_defs registry_defs)

text \<open>
  Claim C4 as stated fails when the removal fails: the handler raises and the
  stored identity is still \<open>node-exporter\<close>.
\<close>

theorem remove_keeps_state_when_removal_fails_counterexample:
 "remove ((obliging_env (default_config :: unit CharmConfig))\<lparr>answer := (\<lambda>h c. False)\<rparr>)
     (fresh_charm ''app/0'' (Some ''node-exporter'') [''LCK..node-exporter__app_0'']) =
  (Inl (CharmUninstallError ''Failed to uninstall snap: node-exporter. See juju debug-log for details.''),
   (fresh_charm ''app/0'' (Some ''node-exporter'') [])
     \<lparr>unit_status := MaintenanceStatus ''Removing charm resources'',
      calls := [UnregisterCall ''node-exporter'', SnapRemove ''node-exporter'']\<rparr>)"
  by (simp add: charm_defs registry_defs)

theorem remove_clears_unless_removal_fails_witness:
  "\<exists>s'. remove (obliging_env (default_config :: unit CharmConfig))
           (fresh_charm ''app/0'' (Some ''node-exporter'')
              [''LCK..node-exporter__app_0'', ''LCK..node-exporter__app_1'']) = (Inr (), s') \<and>
        LOCK_DIR s' = [''LCK..node-exporter__app_1''] \<and>
        calls s' = [UnregisterCall ''node-exporter''] \<and>
        installed_snap_name s' = None"
proof -
  let ?s = "fresh_charm ''app/0'' (Some ''node-exporter'')
              [''LCK..node-exporter__app_0'', ''LCK..node-exporter__app_1''] :: unit charm"
  have fn: "filename \<lparr>unit_name = unit ?s, snap_name = ''node-exporter''\<rparr> = ''LCK..node-exporter__app_0''"
    by (simp add: fresh_charm_def filename_def normalize_name_def is_word_char_def PREFIX_def
        SEPARATOR_UNIT_def)
  have h1: "installed_snap_name ?s = Some ''node-exporter''" by (simp add: fresh_charm_def)
  have h2: "filename \<lparr>unit_name = unit ?s, snap_name = ''node-exporter''\<rparr> \<in> set (LOCK_DIR ?s)"
    unfolding fn by (simp add: fresh_charm_def)
  have h3: "is_used_by_other_units (unit ?s) ''node-exporter''
       (removeAll (filename \<lparr>unit_name = unit ?s, snap_name = ''node-exporter''\<rparr>) (LOCK_DIR ?s)) = Inr True"
    unfolding fn
    by (simp add: fresh_charm_def is_used_by_other_units_def get_units_def from_filename_def
        str_split_def PREFIX_def SEPARATOR_UNIT_def)
  from remove_clears_unless_removal_fails [OF h1 h2 h3, of "obliging_env default_config"]
  show ?thesis unfolding fn by (simp add: fresh_charm_def)
qed

theorem reconcile_identity_change_shared_snap_witness:
  "installed_snap_name (fresh_charm ''app/0'' (Some ''node-exporter'')
        [''LCK..node-exporter__app_0'', ''LCK..node-exporter__app_1''] :: unit charm)
     = Some ''node-exporter'' \<and>
   canonical_dir [''LCK..node-exporter__app_0'', ''LCK..node-exporter__app_1''] \<and>
   (\<exists>s' rest.
      reconcile (obliging_env (default_config\<lparr>conf_snap_name := Some ''smartctl-exporter'',
                   conf_exporter_port := Some 9633,
                   conf_snap_channel := Some ''latest/stable''\<rparr> :: unit CharmConfig))
        ConfigChangedEvent
        (fresh_charm ''app/0'' (Some ''node-exporter'')
           [''LCK..node-exporter__app_0'', ''LCK..node-exporter__app_1'']) = (Inr (), s') \<and>
      installed_snap_name s' = Some ''smartctl-exporter'' \<and>
      calls s' = [UnregisterCall ''node-exporter'', RegisterCall ''smartctl-exporter'',
                  SnapInstall ''smartctl-exporter'' 7 False,
                  SnapEnableAndStart ''smartctl-exporter''] @ rest \<and>
      (\<forall>n. SnapRemove n \<notin> set rest))"
proof -
  let ?cfg = "default_config\<lparr>conf_snap_name := Some ''smartctl-exporter'',
                   conf_exporter_port := Some 9633,
                   conf_snap_channel := Some ''latest/stable''\<rparr> :: unit CharmConfig"
  let ?e = "obliging_env ?cfg"
  let ?d = "[''LCK..node-exporter__app_0'', ''LCK..node-exporter__app_1'']"
  let ?s = "fresh_charm ''app/0'' (Some ''node-exporter'') ?d :: unit charm"
  let ?c = "?cfg\<lparr>conf_snap_revision := Some 7\<rparr>"
  have val: "helper_validate_config ?e ?s = (Inr (), ?s\<lparr>conf := ?c\<rparr>)"
    by (simp add: helper_validate_config_def resolve_snap_def merge_secret_def
        default_config_def obliging_env_def fresh_charm_def)
  have new: "conf_snap_name ?c = Some ''smartctl-exporter''" "''smartctl-exporter'' \<noteq> []"
    "conf_snap_revision ?c = Some 7"
    by simp_all
  have old: "installed_snap_name ?s = Some ''node-exporter''" "''node-exporter'' \<noteq> ''smartctl-exporter''"
    by (simp_all add: fresh_charm_def)
  have A_ok: "CHR ''.'' \<notin> set ''node-exporter''" "CHR ''_'' \<notin> set ''node-exporter''"
    by simp_all
  have dir0: "canonical_dir ?d"
    by (simp add: canonical_dir_def from_filename_def str_split_def filename_def
        PREFIX_def SEPARATOR_UNIT_def normalize_name_def is_word_char_def)
  then have dir: "canonical_dir (LOCK_DIR ?s)" by (simp add: fresh_charm_def)
  have own: "filename \<lparr>unit_name = unit ?s, snap_name = ''node-exporter''\<rparr> \<in> set (LOCK_DIR ?s)"
    by (simp add: fresh_charm_def filename_def normalize_name_def is_word_char_def PREFIX_def
        SEPARATOR_UNIT_def)
  have other: "filename \<lparr>unit_name = ''app/1'', snap_name = ''node-exporter''\<rparr> \<in> set (LOCK_DIR ?s)"
    "filename \<lparr>unit_name = ''app/1'', snap_name = ''node-exporter''\<rparr>
       \<noteq> filename \<lparr>unit_name = unit ?s, snap_name = ''node-exporter''\<rparr>"
    "\<not> sublist SEPARATOR_UNIT (normalize_name ''app/1'')"
    by (simp_all add: fresh_charm_def filename_def normalize_name_def is_word_char_def PREFIX_def
        SEPARATOR_UNIT_def sublist_Cons_right)
  have inst: "\<forall>h. answer ?e h (SnapInstall ''smartctl-exporter'' 7 (conf_snap_classic ?c))"
    by (simp add: obliging_env_def)
  from reconcile_identity_change_shared_snap
    [OF val new old A_ok dir own other inst, of ConfigChangedEvent]
  have "\<exists>r s' rest.
      reconcile ?e ConfigChangedEvent ?s = (r, s') \<and>
      installed_snap_name s' = Some ''smartctl-exporter'' \<and>
      calls s' = calls ?s @ [UnregisterCall ''node-exporter'', RegisterCall ''smartctl-exporter'',
                  SnapInstall ''smartctl-exporter'' 7 (conf_snap_classic ?c),
                  SnapEnableAndStart ''smartctl-exporter''] @ rest \<and>
      (\<forall>n. SnapRemove n \<notin> set rest) \<and>
      (r = Inr () \<or> (\<exists>err h c. r = Inl err \<and> raised ?e h c = Some err))" .
  then have "\<exists>s' rest.
      reconcile ?e ConfigChangedEvent ?s = (Inr (), s') \<and>
      installed_snap_name s' = Some ''smartctl-exporter'' \<and>
      calls s' = [UnregisterCall ''node-exporter'', RegisterCall ''smartctl-exporter'',
                  SnapInstall ''smartctl-exporter'' 7 False,
                  SnapEnableAndStart ''smartctl-exporter''] @ rest \<and>
      (\<forall>n. SnapRemove n \<notin> set rest)"
    by (auto simp: fresh_charm_def default_config_def obliging_env_def)
  with old(1) dir0 show ?thesis by blast
qed

text \<open>The scenario of claim C2 evaluated, with every probe passing.\<close>

lemma reconcile_scenario_evaluated:
  "reconcile (obliging_env (default_config\<lparr>conf_snap_name := Some ''smartctl-exporter'',
                   conf_exporter_port := Some 9633,
                   conf_snap_channel := Some ''latest/stable''\<rparr> :: unit CharmConfig))
        UpdateStatusEvent
        (fresh_charm ''app/0'' (Some ''node-exporter'')
           [''LCK..node-exporter__app_0'', ''LCK..node-exporter__app_1'']) =
   (Inr (),
    \<lparr>conf = default_config\<lparr>conf_snap_name := Some ''smartctl-exporter'',
              conf_exporter_port := Some 9633,
              conf_snap_channel := Some ''latest/stable'', conf_snap_revision := Some 7\<rparr>,
     installed_snap_name = Some ''smartctl-exporter'',
     unit_status = ActiveStatus,
     unit = ''app/0'',
     LOCK_DIR = [''LCK..node-exporter__app_1'', ''LCK..smartctl-exporter__app_0''],
     rules_dir = None,
     calls = [UnregisterCall ''node-exporter'', RegisterCall ''smartctl-exporter'',
              SnapInstall ''smartctl-exporter'' 7 False,
              SnapEnableAndStart ''smartctl-exporter'', SnapCheck ''smartctl-exporter'',
              CheckMetricsEndpoint ''http://localhost:9633/metrics'']\<rparr>)"
  by (simp add: charm_defs registry_defs str_opt_int_def str_int_def str_nat.simps)

end
